theory Spec2Isabelle
  imports Main "HOL-Library.Sublist"
begin

section \<open>Text, bytes and the Python runtime\<close>

text \<open>
  A Python \<open>str\<close> is a sequence of Unicode code points and a \<open>bytes\<close> object a sequence
  of integers below 256. Error messages and the fixed names of the program (finding
  types, confidence levels, statuses) are ASCII and are kept as HOL strings.
\<close>

type_synonym cp = nat
type_synonym pystr = "cp list"
type_synonym bytes = "nat list"

definition str :: "string \<Rightarrow> pystr" where
  "str s = map of_char s"

text \<open>
  The detectors call into Python's \<open>re\<close>, \<open>str\<close> and \<open>hashlib\<close>. Their behaviour on ASCII
  is written out below. Their behaviour on code points from 128 on is fixed by the Unicode
  tables of the interpreter, and the digest by SHA-256; neither is part of the repository,
  so both are taken as a parameter and every result holds for any value of it.
\<close>

record pylib =
  nd_value :: "cp \<Rightarrow> int option"    \<comment> \<open>value of a non-ASCII decimal digit: \<open>\d\<close>, \<open>int(d)\<close>\<close>
  other_digit :: "cp \<Rightarrow> bool"      \<comment> \<open>non-ASCII, \<open>isdigit()\<close> holds but \<open>int(d)\<close> raises\<close>
  uni_space :: "cp \<Rightarrow> bool"        \<comment> \<open>non-ASCII whitespace: \<open>\s\<close>, \<open>strip()\<close>\<close>
  uni_word :: "cp \<Rightarrow> bool"         \<comment> \<open>non-ASCII word character: \<open>\w\<close>, \<open>\b\<close>\<close>
  uni_upper :: "cp \<Rightarrow> bool"        \<comment> \<open>non-ASCII, \<open>isupper()\<close>\<close>
  uni_lower :: "cp \<Rightarrow> bool"        \<comment> \<open>non-ASCII, \<open>islower()\<close>\<close>
  uni_to_lower :: "cp \<Rightarrow> pystr"     \<comment> \<open>non-ASCII, \<open>lower()\<close> of one character\<close>
  sha256_hex :: "pystr \<Rightarrow> string"    \<comment> \<open>\<open>hashlib.sha256(v.encode('utf-8')).hexdigest()\<close>\<close>

datatype exn =
    ValueError
  | ClientError string
  | SQLAlchemyError string
  | OtherError string

definition in_range :: "char \<Rightarrow> char \<Rightarrow> cp \<Rightarrow> bool" where
  "in_range lo hi c = (of_char lo \<le> c \<and> c \<le> of_char hi)"

definition one_of :: "string \<Rightarrow> cp \<Rightarrow> bool" where
  "one_of s c = (c \<in> set (str s))"

definition int_of_char :: "pylib \<Rightarrow> cp \<Rightarrow> int option" where
  "int_of_char E c =
     (if c < 128 then (if in_range CHR ''0'' CHR ''9'' c then Some (int c - 48) else None)
      else nd_value E c)"

definition is_decimal :: "pylib \<Rightarrow> cp \<Rightarrow> bool" where
  "is_decimal E c = (int_of_char E c \<noteq> None)"

definition isdigit :: "pylib \<Rightarrow> cp \<Rightarrow> bool" where
  "isdigit E c = (is_decimal E c \<or> (128 \<le> c \<and> other_digit E c))"

definition is_space :: "pylib \<Rightarrow> cp \<Rightarrow> bool" where
  "is_space E c =
     (if c < 128 then (9 \<le> c \<and> c \<le> 13) \<or> (28 \<le> c \<and> c \<le> 32) else uni_space E c)"

definition is_word :: "pylib \<Rightarrow> cp \<Rightarrow> bool" where
  "is_word E c =
     (if c < 128
      then in_range CHR ''a'' CHR ''z'' c \<or> in_range CHR ''A'' CHR ''Z'' c \<or>
           in_range CHR ''0'' CHR ''9'' c \<or> c = of_char CHR ''_''
      else uni_word E c)"

definition isupper :: "pylib \<Rightarrow> cp \<Rightarrow> bool" where
  "isupper E c = (if c < 128 then in_range CHR ''A'' CHR ''Z'' c else uni_upper E c)"

definition islower :: "pylib \<Rightarrow> cp \<Rightarrow> bool" where
  "islower E c = (if c < 128 then in_range CHR ''a'' CHR ''z'' c else uni_lower E c)"

definition lower :: "pylib \<Rightarrow> pystr \<Rightarrow> pystr" where
  "lower E s =
     concat (map (\<lambda>c. if c < 128 then [if in_range CHR ''A'' CHR ''Z'' c then c + 32 else c]
                       else uni_to_lower E c) s)"

text \<open>\<open>s.isdigit()\<close>: every character is a digit and there is at least one.\<close>

definition str_isdigit :: "pylib \<Rightarrow> pystr \<Rightarrow> bool" where
  "str_isdigit E s = (s \<noteq> [] \<and> list_all (isdigit E) s)"

text \<open>\<open>s.strip()\<close>: leading and trailing whitespace removed.\<close>

definition strip :: "pylib \<Rightarrow> pystr \<Rightarrow> pystr" where
  "strip E s = rev (dropWhile (is_space E) (rev (dropWhile (is_space E) s)))"

text \<open>\<open>s.split(c)\<close> for a one-character separator: never empty, one more piece than separators.\<close>

fun split_on :: "cp \<Rightarrow> pystr \<Rightarrow> pystr list" where
  "split_on sep [] = [[]]"
| "split_on sep (c # cs) =
     (if c = sep then [] # split_on sep cs
      else (case split_on sep cs of
              p # ps \<Rightarrow> (c # p) # ps
            | [] \<Rightarrow> [[c]]))"

text \<open>\<open>s[a:b]\<close> for \<open>0 \<le> a\<close> and \<open>0 \<le> b\<close>.\<close>

definition slice :: "'a list \<Rightarrow> nat \<Rightarrow> nat \<Rightarrow> 'a list" where
  "slice s a b = drop a (take b s)"


section \<open>Regular expressions\<close>

text \<open>
  The fragment of Python's \<open>re\<close> that the six patterns use: character classes, \<open>\b\<close>,
  concatenation, alternation, the greedy optional \<open>?\<close>, and greedy counted repetition of
  a class (\<open>{m}\<close>, \<open>{m,n}\<close>, \<open>{m,}\<close>, \<open>+\<close>). A cursor is the position, the character before it
  and the remaining text. \<open>ends\<close> lists every way a pattern can match at a cursor, in the
  order a backtracking matcher tries them, so the head is the match \<open>re\<close> reports.
\<close>

datatype rx =
    Eps
  | Cls "cp \<Rightarrow> bool"
  | Bnd "cp \<Rightarrow> bool"
  | Seq rx rx
  | Alt rx rx
  | Opt rx
  | Many "cp \<Rightarrow> bool" nat "nat option"

type_synonym cursor = "nat \<times> cp option \<times> pystr"

fun runs :: "(cp \<Rightarrow> bool) \<Rightarrow> nat \<Rightarrow> cursor \<Rightarrow> cursor list" where
  "runs p 0 cur = [cur]"
| "runs p (Suc k) (n, prev, []) = [(n, prev, [])]"
| "runs p (Suc k) (n, prev, c # cs) =
     (if p c then (n, prev, c # cs) # runs p k (Suc n, Some c, cs) else [(n, prev, c # cs)])"

fun at_boundary :: "(cp \<Rightarrow> bool) \<Rightarrow> cp option \<Rightarrow> pystr \<Rightarrow> bool" where
  "at_boundary w prev rest =
     ((case prev of None \<Rightarrow> False | Some c \<Rightarrow> w c) \<noteq>
      (case rest of [] \<Rightarrow> False | c # _ \<Rightarrow> w c))"

fun ends :: "rx \<Rightarrow> cursor \<Rightarrow> cursor list" where
  "ends Eps cur = [cur]"
| "ends (Cls p) (n, prev, rest) =
     (case rest of [] \<Rightarrow> [] | c # cs \<Rightarrow> if p c then [(Suc n, Some c, cs)] else [])"
| "ends (Bnd w) (n, prev, rest) = (if at_boundary w prev rest then [(n, prev, rest)] else [])"
| "ends (Seq a b) cur = concat (map (ends b) (ends a cur))"
| "ends (Alt a b) cur = ends a cur @ ends b cur"
| "ends (Opt a) cur = ends a cur @ [cur]"
| "ends (Many p lo hi) (n, prev, rest) =
     rev (drop lo (runs p (case hi of None \<Rightarrow> length rest | Some h \<Rightarrow> h) (n, prev, rest)))"

definition rx_seq :: "rx list \<Rightarrow> rx" where
  "rx_seq rs = foldr Seq rs Eps"

definition times :: "nat \<Rightarrow> rx \<Rightarrow> rx" where
  "times k r = rx_seq (replicate k r)"

definition lit :: "char \<Rightarrow> rx" where
  "lit c = Cls (\<lambda>x. x = of_char c)"

text \<open>
  \<open>finditer\<close>: the non-overlapping matches from left to right, as (start, end) pairs. After
  a match the search resumes at its end; \<open>skip\<close> counts the characters still to pass.
\<close>

fun finditer_from :: "rx \<Rightarrow> nat \<Rightarrow> cp option \<Rightarrow> pystr \<Rightarrow> nat \<Rightarrow> (nat \<times> nat) list" where
  "finditer_from r n prev [] skip =
     (if skip = 0 then (case ends r (n, prev, []) of [] \<Rightarrow> [] | (e, _) # _ \<Rightarrow> [(n, e)]) else [])"
| "finditer_from r n prev (c # cs) skip =
     (if 0 < skip then finditer_from r (Suc n) (Some c) cs (skip - 1)
      else (case ends r (n, prev, c # cs) of
              [] \<Rightarrow> finditer_from r (Suc n) (Some c) cs 0
            | (e, _) # _ \<Rightarrow> (n, e) # finditer_from r (Suc n) (Some c) cs (e - n - 1)))"

definition finditer :: "rx \<Rightarrow> pystr \<Rightarrow> (nat \<times> nat) list" where
  "finditer r s = finditer_from r 0 None s 0"

text \<open>The characters a pattern can consume: those that one of its classes accepts.\<close>

fun rx_chars :: "rx \<Rightarrow> cp \<Rightarrow> bool" where
  "rx_chars Eps c = False"
| "rx_chars (Cls p) c = p c"
| "rx_chars (Bnd w) c = False"
| "rx_chars (Seq a b) c = (rx_chars a c \<or> rx_chars b c)"
| "rx_chars (Alt a b) c = (rx_chars a c \<or> rx_chars b c)"
| "rx_chars (Opt a) c = rx_chars a c"
| "rx_chars (Many p lo hi) c = p c"


section \<open>The detector engine (detectors.py)\<close>

record finding =
  finding_type :: string
  value_text :: pystr
  value_hash :: string
  line_number :: int
  column_start :: nat
  column_end :: nat
  context_text :: pystr
  confidence :: string

subsection \<open>PATTERNS\<close>

definition sep_dash_space :: "pylib \<Rightarrow> cp \<Rightarrow> bool" where
  "sep_dash_space E c = (c = of_char CHR ''-'' \<or> is_space E c)"

definition sep_dash_dot_space :: "pylib \<Rightarrow> cp \<Rightarrow> bool" where
  "sep_dash_dot_space E c = (one_of ''-.'' c \<or> is_space E c)"

definition digits :: "pylib \<Rightarrow> nat \<Rightarrow> rx" where
  "digits E k = Many (is_decimal E) k (Some k)"

text \<open>\<^verbatim>\<open>\b\d{3}[-\s]?\d{2}[-\s]?\d{4}\b\<close>\<close>

definition ssn_rx :: "pylib \<Rightarrow> rx" where
  "ssn_rx E =
     rx_seq [Bnd (is_word E), digits E 3, Opt (Cls (sep_dash_space E)), digits E 2,
             Opt (Cls (sep_dash_space E)), digits E 4, Bnd (is_word E)]"

text \<open>\<^verbatim>\<open>\b(?:\d{4}[-\s]?){3}\d{4}\b|\b\d{15,16}\b\<close>\<close>

definition credit_card_rx :: "pylib \<Rightarrow> rx" where
  "credit_card_rx E =
     Alt (rx_seq [Bnd (is_word E),
                  times 3 (rx_seq [digits E 4, Opt (Cls (sep_dash_space E))]),
                  digits E 4, Bnd (is_word E)])
         (rx_seq [Bnd (is_word E), Many (is_decimal E) 15 (Some 16), Bnd (is_word E)])"

text \<open>\<^verbatim>\<open>\b(AKIA[0-9A-Z]{16})\b\<close>\<close>

definition aws_access_key_rx :: "pylib \<Rightarrow> rx" where
  "aws_access_key_rx E =
     rx_seq [Bnd (is_word E), lit CHR ''A'', lit CHR ''K'', lit CHR ''I'', lit CHR ''A'',
             Many (\<lambda>c. in_range CHR ''0'' CHR ''9'' c \<or> in_range CHR ''A'' CHR ''Z'' c) 16 (Some 16),
             Bnd (is_word E)]"

text \<open>\<^verbatim>\<open>\b([A-Za-z0-9/+=]{40})\b\<close>\<close>

definition aws_secret_key_rx :: "pylib \<Rightarrow> rx" where
  "aws_secret_key_rx E =
     rx_seq [Bnd (is_word E),
             Many (\<lambda>c. in_range CHR ''A'' CHR ''Z'' c \<or> in_range CHR ''a'' CHR ''z'' c \<or>
                        in_range CHR ''0'' CHR ''9'' c \<or> one_of ''/+='' c) 40 (Some 40),
             Bnd (is_word E)]"

text \<open>\<^verbatim>\<open>\b[A-Za-z0-9._%+-]+@[A-Za-z0-9.-]+\.[A-Z|a-z]{2,}\b\<close>\<close>

definition email_rx :: "pylib \<Rightarrow> rx" where
  "email_rx E =
     rx_seq [Bnd (is_word E),
             Many (\<lambda>c. in_range CHR ''A'' CHR ''Z'' c \<or> in_range CHR ''a'' CHR ''z'' c \<or>
                        in_range CHR ''0'' CHR ''9'' c \<or> one_of ''._%+-'' c) 1 None,
             lit CHR ''@'',
             Many (\<lambda>c. in_range CHR ''A'' CHR ''Z'' c \<or> in_range CHR ''a'' CHR ''z'' c \<or>
                        in_range CHR ''0'' CHR ''9'' c \<or> one_of ''.-'' c) 1 None,
             lit CHR ''.'',
             Many (\<lambda>c. in_range CHR ''A'' CHR ''Z'' c \<or> c = of_char CHR ''|'' \<or>
                        in_range CHR ''a'' CHR ''z'' c) 2 None,
             Bnd (is_word E)]"

text \<open>\<^verbatim>\<open>\b(?:\+?1[-.\s]?)?\(?\d{3}\)?[-.\s]?\d{3}[-.\s]?\d{4}\b\<close>\<close>

definition phone_us_rx :: "pylib \<Rightarrow> rx" where
  "phone_us_rx E =
     rx_seq [Bnd (is_word E),
             Opt (rx_seq [Opt (lit CHR ''+''), lit CHR ''1'', Opt (Cls (sep_dash_dot_space E))]),
             Opt (lit CHR ''(''), digits E 3, Opt (lit CHR '')''),
             Opt (Cls (sep_dash_dot_space E)), digits E 3,
             Opt (Cls (sep_dash_dot_space E)), digits E 4, Bnd (is_word E)]"

subsection \<open>luhn\_check\<close>

text \<open>
  \<open>[int(d) for d in card_number if d.isdigit()]\<close>: \<open>int\<close> raises \<open>ValueError\<close> on a character
  that \<open>isdigit\<close> accepts and that is no decimal digit.
\<close>

fun digits_of :: "pylib \<Rightarrow> pystr \<Rightarrow> exn + int list" where
  "digits_of E [] = Inr []"
| "digits_of E (d # ds) =
     (if isdigit E d
      then (case int_of_char E d of
              None \<Rightarrow> Inl ValueError
            | Some v \<Rightarrow> (case digits_of E ds of Inl e \<Rightarrow> Inl e | Inr vs \<Rightarrow> Inr (v # vs)))
      else digits_of E ds)"

fun luhn_sum :: "nat \<Rightarrow> int list \<Rightarrow> int \<Rightarrow> int" where
  "luhn_sum i [] checksum = checksum"
| "luhn_sum i (digit # ds) checksum =
     luhn_sum (Suc i) ds
       (checksum + (if i mod 2 = 1
                    then (if digit * 2 > 9 then digit * 2 - 9 else digit * 2)
                    else digit))"

definition luhn_check :: "pylib \<Rightarrow> pystr \<Rightarrow> exn + bool" where
  "luhn_check E card_number =
     (case digits_of E card_number of
        Inl e \<Rightarrow> Inl e
      | Inr ds \<Rightarrow>
          if length ds < 13 \<or> length ds > 19 then Inr False
          else Inr (luhn_sum 0 (rev ds) 0 mod 10 = 0))"

subsection \<open>hash\_value and get\_context\<close>

definition hash_value :: "pylib \<Rightarrow> pystr \<Rightarrow> string" where
  "hash_value E v = sha256_hex E v"

definition CONTEXT_WINDOW :: nat where
  "CONTEXT_WINDOW = 50"

text \<open>
  \<open>start\<close> and \<open>end\<close> are the span of a match, so natural numbers: \<open>start - CONTEXT_WINDOW\<close>
  on them is \<open>max(0, start - CONTEXT_WINDOW)\<close>.
\<close>

definition get_context :: "pylib \<Rightarrow> pystr \<Rightarrow> nat \<Rightarrow> nat \<Rightarrow> pystr" where
  "get_context E line start end' =
     (let context_start = start - CONTEXT_WINDOW;
          context_end = min (length line) (end' + CONTEXT_WINDOW);
          ctx = strip E (slice line context_start context_end)
      in if length ctx > 200 then take 200 ctx @ str ''...'' else ctx)"

subsection \<open>The detectors\<close>

text \<open>\<open>re.sub(r'[-\s]', '', value)\<close>\<close>

definition strip_separators :: "pylib \<Rightarrow> pystr \<Rightarrow> pystr" where
  "strip_separators E v = filter (\<lambda>c. \<not> sep_dash_space E c) v"

definition ssn_finding :: "pylib \<Rightarrow> pystr \<Rightarrow> int \<Rightarrow> nat \<times> nat \<Rightarrow> finding" where
  "ssn_finding E line ln m =
     (let v = slice line (fst m) (snd m);
          normalized = strip_separators E v
      in \<lparr>finding_type = ''ssn'', value_text = v,
          value_hash = hash_value E normalized, line_number = ln,
          column_start = fst m, column_end = snd m,
          context_text = get_context E line (fst m) (snd m),
          confidence = ''high''\<rparr>)"

definition ssn_match :: "pylib \<Rightarrow> pystr \<Rightarrow> int \<Rightarrow> nat \<times> nat \<Rightarrow> finding list" where
  "ssn_match E line ln m =
     (let normalized = strip_separators E (slice line (fst m) (snd m))
      in if length normalized = 9 \<and> str_isdigit E normalized
         then (if prefix (str ''000'') normalized \<or> prefix (str ''666'') normalized \<or>
                  prefix (str ''9'') normalized
               then []
               else [ssn_finding E line ln m])
         else [])"

definition detect_ssn :: "pylib \<Rightarrow> pystr \<Rightarrow> int \<Rightarrow> finding list" where
  "detect_ssn E line ln = concat (map (ssn_match E line ln) (finditer (ssn_rx E) line))"

text \<open>
  The credit card loop: a match whose Luhn check fails is skipped (the \<open>continue\<close> after
  \<open>confidence = 'medium'\<close>); an exception of \<open>luhn_check\<close> leaves the loop.
\<close>

definition credit_card_finding :: "pylib \<Rightarrow> pystr \<Rightarrow> int \<Rightarrow> nat \<times> nat \<Rightarrow> finding" where
  "credit_card_finding E line ln m =
     (let v = slice line (fst m) (snd m);
          normalized = strip_separators E v
      in \<lparr>finding_type = ''credit_card'', value_text = v,
          value_hash = hash_value E normalized, line_number = ln,
          column_start = fst m, column_end = snd m,
          context_text = get_context E line (fst m) (snd m),
          confidence = ''high''\<rparr>)"

fun credit_card_loop ::
  "pylib \<Rightarrow> pystr \<Rightarrow> int \<Rightarrow> (nat \<times> nat) list \<Rightarrow> finding list \<Rightarrow> exn + finding list" where
  "credit_card_loop E line ln [] findings = Inr findings"
| "credit_card_loop E line ln (m # ms) findings =
     (case luhn_check E (strip_separators E (slice line (fst m) (snd m))) of
        Inl e \<Rightarrow> Inl e
      | Inr ok \<Rightarrow>
          if ok
          then credit_card_loop E line ln ms (findings @ [credit_card_finding E line ln m])
          else credit_card_loop E line ln ms findings)"

definition detect_credit_card :: "pylib \<Rightarrow> pystr \<Rightarrow> int \<Rightarrow> exn + finding list" where
  "detect_credit_card E line ln =
     credit_card_loop E line ln (finditer (credit_card_rx E) line) []"

definition access_key_match :: "pylib \<Rightarrow> pystr \<Rightarrow> int \<Rightarrow> nat \<times> nat \<Rightarrow> finding list" where
  "access_key_match E line ln m =
     (let v = slice line (fst m) (snd m)
      in [\<lparr>finding_type = ''aws_access_key'', value_text = v, value_hash = hash_value E v,
            line_number = ln, column_start = fst m, column_end = snd m,
            context_text = get_context E line (fst m) (snd m), confidence = ''high''\<rparr>])"

definition secret_key_match :: "pylib \<Rightarrow> pystr \<Rightarrow> int \<Rightarrow> nat \<times> nat \<Rightarrow> finding list" where
  "secret_key_match E line ln m =
     (let v = slice line (fst m) (snd m)
      in if list_ex (isupper E) v \<and> list_ex (islower E) v \<and> list_ex (isdigit E) v
         then [\<lparr>finding_type = ''aws_secret_key'', value_text = v, value_hash = hash_value E v,
                 line_number = ln, column_start = fst m, column_end = snd m,
                 context_text = get_context E line (fst m) (snd m), confidence = ''medium''\<rparr>]
         else [])"

definition detect_aws_keys :: "pylib \<Rightarrow> pystr \<Rightarrow> int \<Rightarrow> finding list" where
  "detect_aws_keys E line ln =
     concat (map (access_key_match E line ln) (finditer (aws_access_key_rx E) line)) @
     concat (map (secret_key_match E line ln) (finditer (aws_secret_key_rx E) line))"

text \<open>
  \<open>'@' in value and '.' in value.split('@')[1]\<close>: the second piece exists when the first
  conjunct holds.
\<close>

definition email_match :: "pylib \<Rightarrow> pystr \<Rightarrow> int \<Rightarrow> nat \<times> nat \<Rightarrow> finding list" where
  "email_match E line ln m =
     (let v = slice line (fst m) (snd m)
      in if of_char CHR ''@'' \<in> set v \<and>
            (case split_on (of_char CHR ''@'') v of
               _ # domain # _ \<Rightarrow> of_char CHR ''.'' \<in> set domain
             | _ \<Rightarrow> False)
         then [\<lparr>finding_type = ''email'', value_text = v, value_hash = hash_value E (lower E v),
                 line_number = ln, column_start = fst m, column_end = snd m,
                 context_text = get_context E line (fst m) (snd m), confidence = ''high''\<rparr>]
         else [])"

definition detect_email :: "pylib \<Rightarrow> pystr \<Rightarrow> int \<Rightarrow> finding list" where
  "detect_email E line ln = concat (map (email_match E line ln) (finditer (email_rx E) line))"

text \<open>
  \<open>re.sub(r'[-.\s()]+', '', value)\<close> removes every character of the class; a leading \<open>1\<close> of
  what is left is dropped as the country code.
\<close>

definition phone_normalize :: "pylib \<Rightarrow> pystr \<Rightarrow> pystr" where
  "phone_normalize E v =
     (let normalized = filter (\<lambda>c. \<not> (sep_dash_dot_space E c \<or> one_of ''()'' c)) v
      in if prefix (str ''1'') normalized then drop 1 normalized else normalized)"

definition phone_finding :: "pylib \<Rightarrow> pystr \<Rightarrow> int \<Rightarrow> nat \<times> nat \<Rightarrow> finding" where
  "phone_finding E line ln m =
     (let v = slice line (fst m) (snd m);
          normalized = phone_normalize E v
      in \<lparr>finding_type = ''phone_us'', value_text = v,
          value_hash = hash_value E normalized, line_number = ln,
          column_start = fst m, column_end = snd m,
          context_text = get_context E line (fst m) (snd m),
          confidence = ''high''\<rparr>)"

definition phone_match :: "pylib \<Rightarrow> pystr \<Rightarrow> int \<Rightarrow> nat \<times> nat \<Rightarrow> finding list" where
  "phone_match E line ln m =
     (let normalized = phone_normalize E (slice line (fst m) (snd m))
      in if length normalized = 10 \<and> str_isdigit E normalized
         then (if prefix (str ''000'') normalized \<or> prefix (str ''555'') normalized
               then []
               else [phone_finding E line ln m])
         else [])"

definition detect_phone :: "pylib \<Rightarrow> pystr \<Rightarrow> int \<Rightarrow> finding list" where
  "detect_phone E line ln = concat (map (phone_match E line ln) (finditer (phone_us_rx E) line))"

text \<open>\<open>scan_line\<close> runs the five detectors in order; an exception of one leaves it.\<close>

definition scan_line :: "pylib \<Rightarrow> pystr \<Rightarrow> int \<Rightarrow> exn + finding list" where
  "scan_line E line ln =
     (case detect_credit_card E line ln of
        Inl e \<Rightarrow> Inl e
      | Inr cards \<Rightarrow>
          Inr (detect_ssn E line ln @ cards @ detect_aws_keys E line ln @
               detect_email E line ln @ detect_phone E line ln))"


section \<open>The streaming reader (scanner.py)\<close>

subsection \<open>Decoding a chunk\<close>

text \<open>
  \<open>chunk.decode('utf-8')\<close> is strict: it raises on a truncated sequence, a stray
  continuation byte, an overlong form, a surrogate and a code point above U+10FFFF. \<open>None\<close>
  is the \<open>UnicodeDecodeError\<close>.
\<close>

definition cont :: "nat \<Rightarrow> bool" where
  "cont b = (128 \<le> b \<and> b \<le> 191)"

fun decode_utf8 :: "bytes \<Rightarrow> pystr option" where
  "decode_utf8 [] = Some []"
| "decode_utf8 (b # bs) =
     (if b < 128 then map_option ((#) b) (decode_utf8 bs)
      else if 194 \<le> b \<and> b \<le> 223 then
        (case bs of
           b1 # r \<Rightarrow>
             if cont b1 then map_option ((#) ((b - 192) * 64 + (b1 - 128))) (decode_utf8 r)
             else None
         | _ \<Rightarrow> None)
      else if 224 \<le> b \<and> b \<le> 239 then
        (case bs of
           b1 # b2 # r \<Rightarrow>
             if cont b1 \<and> cont b2 \<and> (b = 224 \<longrightarrow> 160 \<le> b1) \<and> (b = 237 \<longrightarrow> b1 \<le> 159)
             then map_option ((#) ((b - 224) * 4096 + (b1 - 128) * 64 + (b2 - 128)))
                    (decode_utf8 r)
             else None
         | _ \<Rightarrow> None)
      else if 240 \<le> b \<and> b \<le> 244 then
        (case bs of
           b1 # b2 # b3 # r \<Rightarrow>
             if cont b1 \<and> cont b2 \<and> cont b3 \<and> (b = 240 \<longrightarrow> 144 \<le> b1) \<and>
                (b = 244 \<longrightarrow> b1 \<le> 143)
             then map_option
                    ((#) ((b - 240) * 262144 + (b1 - 128) * 4096 + (b2 - 128) * 64 + (b3 - 128)))
                    (decode_utf8 r)
             else None
         | _ \<Rightarrow> None)
      else None)"

text \<open>\<open>chunk.decode('latin-1')\<close>: every byte is its own code point; it cannot fail.\<close>

definition decode_latin1 :: "bytes \<Rightarrow> pystr" where
  "decode_latin1 chunk = chunk"

definition decode_chunk :: "bytes \<Rightarrow> pystr" where
  "decode_chunk chunk =
     (case decode_utf8 chunk of Some t \<Rightarrow> t | None \<Rightarrow> decode_latin1 chunk)"

subsection \<open>The object store\<close>

text \<open>
  What the object store answers for the one key a scan reads: the \<open>head_object\<close> call, the
  ranged read of the first 1024 bytes, and \<open>get_object\<close> with the chunks its body yields
  (a chunk read can fail in the middle of the stream). The scan logs every request it
  makes.
\<close>

record s3_object =
  head_object :: "exn + int"
  get_range :: "exn + bytes"
  get_object :: "exn + (exn + bytes) list"

datatype s3_request = HeadObject | GetObjectRange | GetObject | ReadChunk

record config =
  max_file_size :: int
  chunk_size :: int

fun exn_str :: "exn \<Rightarrow> string" where
  "exn_str ValueError = ''invalid literal for int() with base 10''"
| "exn_str (ClientError m) = m"
| "exn_str (SQLAlchemyError m) = m"
| "exn_str (OtherError m) = m"

text \<open>\<open>str(n)\<close> for an integer, as the f-strings render it.\<close>

function str_nat :: "nat \<Rightarrow> string" where
  "str_nat n =
     (if n < 10 then [char_of (48 + n)] else str_nat (n div 10) @ [char_of (48 + n mod 10)])"
  by pat_completeness auto
termination
  by (relation "measure id") auto

declare str_nat.simps [simp del]

definition str_int :: "int \<Rightarrow> string" where
  "str_int i = (if i < 0 then CHR ''-'' # str_nat (nat (- i)) else str_nat (nat i))"

definition text_extensions :: "string list" where
  "text_extensions =
     [''.txt'', ''.log'', ''.csv'', ''.json'', ''.xml'', ''.html'', ''.htm'',
      ''.md'', ''.py'', ''.js'', ''.java'', ''.c'', ''.cpp'', ''.h'', ''.sh'',
      ''.yml'', ''.yaml'', ''.toml'', ''.ini'', ''.cfg'', ''.conf'', ''.sql'']"

text \<open>
  \<open>is_text_file\<close> catches a \<open>ClientError\<close> of the ranged read and answers \<open>False\<close>; any
  other exception leaves it.
\<close>

definition is_text_file ::
  "pylib \<Rightarrow> s3_object \<Rightarrow> pystr \<Rightarrow> s3_request list \<Rightarrow> (exn + bool) \<times> s3_request list" where
  "is_text_file E obj s3_key log =
     (if list_ex (\<lambda>ext. suffix (str ext) (lower E s3_key)) text_extensions then (Inr True, log)
      else (case get_range obj of
              Inl (ClientError m) \<Rightarrow> (Inr False, log @ [GetObjectRange])
            | Inl e \<Rightarrow> (Inl e, log @ [GetObjectRange])
            | Inr body \<Rightarrow>
                (let sample = take 1024 body
                 in if 0 \<in> set sample then (Inr False, log @ [GetObjectRange])
                    else (Inr (decode_utf8 sample \<noteq> None), log @ [GetObjectRange]))))"

definition get_file_size ::
  "s3_object \<Rightarrow> s3_request list \<Rightarrow> (exn + int option) \<times> s3_request list" where
  "get_file_size obj log =
     (case head_object obj of
        Inr n \<Rightarrow> (Inr (Some n), log @ [HeadObject])
      | Inl (ClientError m) \<Rightarrow> (Inr None, log @ [HeadObject])
      | Inl e \<Rightarrow> (Inl e, log @ [HeadObject]))"

subsection \<open>scan\_file\_streaming\<close>

text \<open>
  The loop over the complete lines of a chunk: the line counter goes up before each line
  is scanned. The result carries the exception that left the loop, if any, and the
  findings gathered until then.
\<close>

fun emit_lines ::
  "pylib \<Rightarrow> pystr list \<Rightarrow> int \<Rightarrow> finding list \<Rightarrow> exn option \<times> int \<times> finding list" where
  "emit_lines E [] line_no findings = (None, line_no, findings)"
| "emit_lines E (line # lines) line_no findings =
     (case scan_line E line (line_no + 1) of
        Inl e \<Rightarrow> (Some e, line_no + 1, findings)
      | Inr line_findings \<Rightarrow> emit_lines E lines (line_no + 1) (findings @ line_findings))"

text \<open>
  The loop over the chunks: decode, append to the buffer, split at newlines, scan all but
  the last piece, keep the last piece as the buffer.
\<close>

fun stream_chunks ::
  "pylib \<Rightarrow> (exn + bytes) list \<Rightarrow> int \<Rightarrow> pystr \<Rightarrow> finding list \<Rightarrow> s3_request list \<Rightarrow>
     exn option \<times> int \<times> pystr \<times> finding list \<times> s3_request list" where
  "stream_chunks E [] line_no buffer findings log =
     (None, line_no, buffer, findings, log @ [ReadChunk])"
| "stream_chunks E (Inl e # rest) line_no buffer findings log =
     (Some e, line_no, buffer, findings, log @ [ReadChunk])"
| "stream_chunks E (Inr chunk # rest) line_no buffer findings log =
     (let lines = split_on 10 (buffer @ decode_chunk chunk)
      in case emit_lines E (butlast lines) line_no findings of
           (Some e, line_no', findings') \<Rightarrow>
             (Some e, line_no', last lines, findings', log @ [ReadChunk])
         | (None, line_no', findings') \<Rightarrow>
             stream_chunks E rest line_no' (last lines) findings' (log @ [ReadChunk]))"

text \<open>
  The two handlers at the end of \<open>scan_file_streaming\<close>: the findings gathered so far are
  returned with the message.
\<close>

fun error_message_of :: "exn \<Rightarrow> string" where
  "error_message_of (ClientError m) = ''S3 error: '' @ m"
| "error_message_of e = ''Unexpected error: '' @ exn_str e"

definition scan_file_streaming ::
  "pylib \<Rightarrow> config \<Rightarrow> s3_object \<Rightarrow> pystr \<Rightarrow>
     finding list \<times> string option \<times> s3_request list" where
  "scan_file_streaming E cfg obj s3_key =
     (case get_file_size obj [] of
        (Inl e, log) \<Rightarrow> ([], Some (error_message_of e), log)
      | (Inr None, log) \<Rightarrow> ([], Some ''Could not determine file size'', log)
      | (Inr (Some file_size), log) \<Rightarrow>
          if file_size > max_file_size cfg
          then ([], Some (''File too large: '' @ str_int file_size @ '' bytes''), log)
          else (case is_text_file E obj s3_key log of
                  (Inl e, log1) \<Rightarrow> ([], Some (error_message_of e), log1)
                | (Inr False, log1) \<Rightarrow> ([], Some ''Non-text file, skipped'', log1)
                | (Inr True, log1) \<Rightarrow>
                    (case get_object obj of
                       Inl e \<Rightarrow> ([], Some (error_message_of e), log1 @ [GetObject])
                     | Inr body \<Rightarrow>
                         (case stream_chunks E body 0 [] [] (log1 @ [GetObject]) of
                            (Some e, _, _, findings, log2) \<Rightarrow>
                              (findings, Some (error_message_of e), log2)
                          | (None, line_no, buffer, findings, log2) \<Rightarrow>
                              if buffer \<noteq> []
                              then (case scan_line E buffer (line_no + 1) of
                                      Inl e \<Rightarrow> (findings, Some (error_message_of e), log2)
                                    | Inr line_findings \<Rightarrow>
                                        (findings @ line_findings, None, log2))
                              else (findings, None, log2)))))"

definition scan_file ::
  "pylib \<Rightarrow> config \<Rightarrow> s3_object \<Rightarrow> pystr \<Rightarrow>
     finding list \<times> string option \<times> s3_request list" where
  "scan_file E cfg obj s3_key = scan_file_streaming E cfg obj s3_key"

text \<open>
  An object of the given content that the store serves without a fault, its body cut into
  the given chunks.
\<close>

definition served :: "bytes list \<Rightarrow> s3_object" where
  "served chunks =
     \<lparr>head_object = Inr (int (length (concat chunks))),
      get_range = Inr (take 1024 (concat chunks)),
      get_object = Inr (map Inr chunks)\<rparr>"


section \<open>The persistence layer (database.py)\<close>

text \<open>
  The columns the worker reads or writes. \<open>job_objects.object_id\<close> and
  \<open>findings.finding_id\<close> are the primary keys; the schema declares
  \<open>UNIQUE(object_id, finding_type, line_number, column_start, value_hash)\<close> on \<open>findings\<close>.
  The columns of a findings row carry the prefix \<open>f_\<close>.
\<close>

record job_object =
  object_id :: int
  job_id :: pystr
  s3_key :: pystr
  status :: string
  error_message :: "string option"
  attempts :: int
  scanned_at :: "nat option"

record finding_data =
  f_object_id :: int
  f_job_id :: pystr
  f_finding_type :: string
  f_value_hash :: string
  f_line_number :: int
  f_column_start :: nat
  f_column_end :: nat
  f_context :: pystr
  f_confidence :: string

record finding_row = finding_data +
  finding_id :: int

text \<open>
  A session works on its own copy of the tables; \<open>commit\<close> publishes the copy and
  \<open>rollback\<close> drops it (\<open>get_session\<close>). \<open>next_finding_id\<close> is the sequence behind
  \<open>finding_id\<close>.
\<close>

record db =
  job_objects :: "job_object list"
  findings :: "finding_row list"
  next_finding_id :: int

fun update_first :: "('a \<Rightarrow> bool) \<Rightarrow> ('a \<Rightarrow> 'a) \<Rightarrow> 'a list \<Rightarrow> 'a list" where
  "update_first p f [] = []"
| "update_first p f (x # xs) = (if p x then f x # xs else x # update_first p f xs)"

text \<open>
  \<open>update_object_status\<close>. \<open>fault\<close> is the exception that the query or the flush raises, if
  any (it is logged and raised again); \<open>now\<close> is \<open>datetime.utcnow()\<close>. A missing row is only
  logged. \<open>if error_message:\<close> is false for \<open>None\<close> and for the empty string.
\<close>

definition update_object_status ::
  "exn option \<Rightarrow> nat \<Rightarrow> db \<Rightarrow> int \<Rightarrow> string \<Rightarrow> string option \<Rightarrow> exn + db" where
  "update_object_status fault now session oid new_status message =
     (case fault of
        Some e \<Rightarrow> Inl e
      | None \<Rightarrow>
          Inr (session\<lparr>job_objects :=
                 update_first (\<lambda>obj. object_id obj = oid)
                   (\<lambda>obj. obj\<lparr>status := new_status,
                              scanned_at :=
                                (if new_status \<in> {''completed'', ''failed''} then Some now
                                 else None),
                              attempts := attempts obj + 1,
                              error_message :=
                                (case message of
                                   Some m \<Rightarrow> if m \<noteq> [] then Some m else error_message obj
                                 | None \<Rightarrow> error_message obj)\<rparr>)
                   (job_objects session)\<rparr>))"

text \<open>
  \<open>INSERT ... ON CONFLICT DO NOTHING\<close> on the five key columns: a row whose key is in the
  table, or earlier in the same statement, is dropped. The sequence moves on for every
  row offered, kept or not.
\<close>

definition finding_key :: "'a finding_data_scheme \<Rightarrow> int \<times> string \<times> int \<times> nat \<times> string" where
  "finding_key r =
     (f_object_id r, f_finding_type r, f_line_number r, f_column_start r, f_value_hash r)"

fun insert_on_conflict_do_nothing :: "db \<Rightarrow> finding_data list \<Rightarrow> db" where
  "insert_on_conflict_do_nothing session [] = session"
| "insert_on_conflict_do_nothing session (d # ds) =
     insert_on_conflict_do_nothing
       (if finding_key d \<in> set (map finding_key (findings session))
        then session\<lparr>next_finding_id := next_finding_id session + 1\<rparr>
        else session\<lparr>findings :=
                       findings session @
                       [finding_data.extend d \<lparr>finding_id = next_finding_id session\<rparr>],
                     next_finding_id := next_finding_id session + 1\<rparr>)
       ds"

definition bulk_insert_findings :: "exn option \<Rightarrow> db \<Rightarrow> finding_data list \<Rightarrow> exn + db" where
  "bulk_insert_findings fault session findings_data =
     (if findings_data = [] then Inr session
      else (case fault of
              Some e \<Rightarrow> Inl e
            | None \<Rightarrow> Inr (insert_on_conflict_do_nothing session findings_data)))"

text \<open>
  \<open>get_object_by_job_and_key\<close> answers \<open>None\<close> on an \<open>SQLAlchemyError\<close> of the query; any
  other exception leaves it.
\<close>

definition get_object_by_job_and_key ::
  "exn option \<Rightarrow> db \<Rightarrow> pystr \<Rightarrow> pystr \<Rightarrow> exn + job_object option" where
  "get_object_by_job_and_key fault session jid key =
     (case fault of
        Some (SQLAlchemyError m) \<Rightarrow> Inr None
      | Some e \<Rightarrow> Inl e
      | None \<Rightarrow> Inr (find (\<lambda>obj. job_id obj = jid \<and> s3_key obj = key) (job_objects session)))"

definition mark_object_scanning :: "exn option \<Rightarrow> nat \<Rightarrow> db \<Rightarrow> int \<Rightarrow> exn + db" where
  "mark_object_scanning fault now session oid =
     update_object_status fault now session oid ''scanning'' None"

definition mark_object_completed :: "exn option \<Rightarrow> nat \<Rightarrow> db \<Rightarrow> int \<Rightarrow> exn + db" where
  "mark_object_completed fault now session oid =
     update_object_status fault now session oid ''completed'' None"

definition mark_object_failed :: "exn option \<Rightarrow> nat \<Rightarrow> db \<Rightarrow> int \<Rightarrow> string \<Rightarrow> exn + db" where
  "mark_object_failed fault now session oid message =
     update_object_status fault now session oid ''failed'' (Some message)"


section \<open>The object processing state machine (main.py)\<close>

text \<open>
  A queue message with its body as \<open>json.loads\<close> reads it: not JSON at all, or an object
  with string fields. The queue is the list of receipt handles not deleted yet.
\<close>

datatype json_body = NotJson | JsonObject "string \<rightharpoonup> pystr"

record message =
  receipt_handle :: string
  message_id :: string
  body :: json_body

definition parse_message :: "json_body \<Rightarrow> (pystr \<times> pystr \<times> pystr) option" where
  "parse_message b =
     (case b of
        NotJson \<Rightarrow> None
      | JsonObject data \<Rightarrow>
          (case (data ''job_id'', data ''s3_bucket'', data ''s3_key'') of
             (Some j, Some b, Some k) \<Rightarrow> Some (j, b, k)
           | _ \<Rightarrow> None))"

text \<open>
  What the outside world does during one \<open>process_message\<close>: the exception, if any, that
  each database call, each commit and the queue's \<open>delete_message\<close> raises, the answers of
  the object store, and the clock.
\<close>

record world =
  lookup_fault :: "exn option"
  scanning_fault :: "exn option"
  commit1_fault :: "exn option"
  insert_fault :: "exn option"
  final_fault :: "exn option"
  commit2_fault :: "exn option"
  delete_fault :: "exn option"
  s3 :: "pystr \<Rightarrow> pystr \<Rightarrow> s3_object"
  utcnow :: nat

text \<open>\<open>delete_message\<close> logs a \<open>ClientError\<close> and goes on; any other exception leaves it.\<close>

definition delete_message :: "exn option \<Rightarrow> string list \<Rightarrow> string \<Rightarrow> exn + string list" where
  "delete_message fault queue handle =
     (case fault of
        None \<Rightarrow> Inr (removeAll handle queue)
      | Some (ClientError m) \<Rightarrow> Inr queue
      | Some e \<Rightarrow> Inl e)"

definition findings_data :: "int \<Rightarrow> pystr \<Rightarrow> finding list \<Rightarrow> finding_data list" where
  "findings_data oid jid fs =
     map (\<lambda>f. \<lparr>f_object_id = oid, f_job_id = jid, f_finding_type = finding_type f,
                f_value_hash = value_hash f, f_line_number = line_number f,
                f_column_start = column_start f, f_column_end = column_end f,
                f_context = context_text f, f_confidence = confidence f\<rparr>) fs"

text \<open>
  The second session of \<open>process_message\<close>: record the failure, or insert the findings (if
  there are any) and record the completion. \<open>if error_message:\<close> is false for \<open>None\<close> and
  for the empty string.
\<close>

definition write_completed :: "world \<Rightarrow> db \<Rightarrow> int \<Rightarrow> pystr \<Rightarrow> finding list \<Rightarrow> exn + db" where
  "write_completed W session oid jid fs =
     (if fs \<noteq> []
      then (case bulk_insert_findings (insert_fault W) session (findings_data oid jid fs) of
              Inl e \<Rightarrow> Inl e
            | Inr session' \<Rightarrow> mark_object_completed (final_fault W) (utcnow W) session' oid)
      else mark_object_completed (final_fault W) (utcnow W) session oid)"

definition write_results ::
  "world \<Rightarrow> db \<Rightarrow> int \<Rightarrow> pystr \<Rightarrow> finding list \<Rightarrow> string option \<Rightarrow> exn + db" where
  "write_results W session oid jid fs message =
     (case message of
        Some m \<Rightarrow>
          if m \<noteq> [] then mark_object_failed (final_fault W) (utcnow W) session oid m
          else write_completed W session oid jid fs
      | None \<Rightarrow> write_completed W session oid jid fs)"

text \<open>
  \<open>process_message\<close> gives the committed database, the queue and the exception that its
  handler logged, if any. An exception inside a session rolls the session back, so the
  database stays as the last commit left it.
\<close>

definition process_message ::
  "pylib \<Rightarrow> config \<Rightarrow> world \<Rightarrow> db \<Rightarrow> string list \<Rightarrow> message \<Rightarrow>
     db \<times> string list \<times> exn option" where
  "process_message E cfg W d queue msg =
     (case parse_message (body msg) of
        None \<Rightarrow>
          (case delete_message (delete_fault W) queue (receipt_handle msg) of
             Inl e \<Rightarrow> (d, queue, Some e)
           | Inr queue' \<Rightarrow> (d, queue', None))
      | Some (jid, bucket, key) \<Rightarrow>
          (case get_object_by_job_and_key (lookup_fault W) d jid key of
             Inl e \<Rightarrow> (d, queue, Some e)
           | Inr None \<Rightarrow>
               (case delete_message (delete_fault W) queue (receipt_handle msg) of
                  Inl e \<Rightarrow> (d, queue, Some e)
                | Inr queue' \<Rightarrow> (d, queue', commit1_fault W))
           | Inr (Some obj) \<Rightarrow>
               (case mark_object_scanning (scanning_fault W) (utcnow W) d (object_id obj) of
                  Inl e \<Rightarrow> (d, queue, Some e)
                | Inr session1 \<Rightarrow>
                    (case commit1_fault W of
                       Some e \<Rightarrow> (d, queue, Some e)
                     | None \<Rightarrow>
                         (case scan_file E cfg (s3 W bucket key) key of
                            (fs, message, log) \<Rightarrow>
                              (case write_results W session1 (object_id obj) jid fs message of
                                 Inl e \<Rightarrow> (session1, queue, Some e)
                               | Inr session2 \<Rightarrow>
                                   (case commit2_fault W of
                                      Some e \<Rightarrow> (session1, queue, Some e)
                                    | None \<Rightarrow>
                                        (case delete_message (delete_fault W) queue
                                                (receipt_handle msg) of
                                           Inl e \<Rightarrow> (session2, queue, Some e)
                                         | Inr queue' \<Rightarrow> (session2, queue', None)))))))))"

text \<open>The row of a unit, by its primary key.\<close>

definition lookup_object :: "db \<Rightarrow> int \<Rightarrow> job_object option" where
  "lookup_object d oid = find (\<lambda>obj. object_id obj = oid) (job_objects d)"


section \<open>Sample inputs\<close>

text \<open>
  The configuration defaults of \<open>config.py\<close>, a database with two pending units, a queue
  message for one of them, and a world in which no call fails.
\<close>

definition default_config :: config where
  "default_config = \<lparr>max_file_size = 524288000, chunk_size = 10485760\<rparr>"

definition sample_db :: db where
  "sample_db =
     \<lparr>job_objects =
        [\<lparr>object_id = 7, job_id = str ''job-1'', s3_key = str ''notes.txt'', status = ''pending'',
          error_message = None, attempts = 0, scanned_at = None\<rparr>,
         \<lparr>object_id = 8, job_id = str ''job-1'', s3_key = str ''blob.bin'', status = ''pending'',
          error_message = None, attempts = 0, scanned_at = None\<rparr>],
      findings = [], next_finding_id = 1\<rparr>"

definition sample_message :: "string \<Rightarrow> message" where
  "sample_message key =
     \<lparr>receipt_handle = ''rh-1'', message_id = ''m-1'',
      body = JsonObject [''job_id'' \<mapsto> str ''job-1'', ''s3_bucket'' \<mapsto> str ''bucket'',
                         ''s3_key'' \<mapsto> str key]\<rparr>"

definition calm_world :: "s3_object \<Rightarrow> world" where
  "calm_world obj =
     \<lparr>lookup_fault = None, scanning_fault = None, commit1_fault = None, insert_fault = None,
      final_fault = None, commit2_fault = None, delete_fault = None,
      s3 = (\<lambda>bucket key. obj), utcnow = 1000\<rparr>"

definition sample_row :: finding_data where
  "sample_row =
     \<lparr>f_object_id = 7, f_job_id = str ''job-1'', f_finding_type = ''ssn'',
      f_value_hash = ''01a5'', f_line_number = 1, f_column_start = 5, f_column_end = 16,
      f_context = str ''SSN: 123-45-6789'', f_confidence = ''high''\<rparr>"

text \<open>
  A line with an e-mail address of 151 characters between two runs of 100 \<open>#\<close>.
\<close>

definition long_email :: pystr where
  "long_email = replicate 146 (of_char CHR ''a'') @ str ''@b.co''"

definition long_email_line :: pystr where
  "long_email_line =
     replicate 100 (of_char CHR ''#'') @ long_email @ replicate 100 (of_char CHR ''#'')"


text \<open>
  An object of no bytes as S3 serves it: the size is 0, the body yields no chunk, and the
  ranged read of bytes 0-1023 is refused with \<open>InvalidRange\<close>, no byte of the range
  existing.
\<close>

definition empty_object :: s3_object where
  "empty_object =
     \<lparr>head_object = Inr 0, get_range = Inl (ClientError ''InvalidRange''), get_object = Inr []\<rparr>"

text \<open>
  A line of valid UTF-8 with a character of two bytes before a social security number:
  \<open>U+00E9\<close>, a space, \<open>123-45-6789\<close> and a newline. \<open>accent_line\<close> is the line as UTF-8
  decodes it, \<open>latin1_line\<close> the line as Latin-1 decodes the same bytes.
\<close>

definition accent_ssn_bytes :: bytes where
  "accent_ssn_bytes = [195, 169, 32, 49, 50, 51, 45, 52, 53, 45, 54, 55, 56, 57, 10]"

definition accent_line :: pystr where
  "accent_line = 233 # 32 # str ''123-45-6789''"

definition latin1_line :: pystr where
  "latin1_line = 195 # 169 # 32 # str ''123-45-6789''"

text \<open>Two faults: the database drops the connection, the network is unreachable.\<close>

definition db_down :: exn where
  "db_down = SQLAlchemyError ''server closed the connection unexpectedly''"

definition net_down :: exn where
  "net_down = OtherError ''Could not connect to the endpoint URL''"


section \<open>Verification: the detector engine\<close>

subsection \<open>Context extraction\<close>

lemma strip_sandwich:
  assumes "m \<noteq> []" "\<not> is_space E (hd m)" "\<not> is_space E (last m)"
  shows "strip E (a @ m @ b) =
           dropWhile (is_space E) a @ m @ rev (dropWhile (is_space E) (rev b))"
proof -
  have front: "dropWhile (is_space E) (a @ m @ b) = dropWhile (is_space E) a @ m @ b"
    using assms(1,2) by (cases m) (auto simp: dropWhile_append)
  have rear: "dropWhile (is_space E) (rev b @ rev m @ rev (dropWhile (is_space E) a)) =
              dropWhile (is_space E) (rev b) @ rev m @ rev (dropWhile (is_space E) a)"
    using assms(1,3) by (cases m rule: rev_cases) (auto simp: dropWhile_append)
  show ?thesis
    unfolding strip_def front by (simp add: rear)
qed

lemma context_slice:
  "slice (pre @ m @ post) (length pre - k)
     (min (length (pre @ m @ post)) (length pre + length m + k)) =
   drop (length pre - k) pre @ m @ take k post"
  by (simp add: slice_def min_def)

lemma get_context_sandwich:
  assumes "m \<noteq> []" "\<not> is_space E (hd m)" "\<not> is_space E (last m)"
  shows "get_context E (pre @ m @ post) (length pre) (length pre + length m) =
           (let ctx = dropWhile (is_space E) (drop (length pre - 50) pre) @ m @
                      rev (dropWhile (is_space E) (rev (take 50 post)))
            in if length ctx > 200 then take 200 ctx @ str ''...'' else ctx)"
  unfolding get_context_def CONTEXT_WINDOW_def context_slice Let_def
    strip_sandwich [OF assms] ..

lemma get_context_contains:
  assumes "m \<noteq> []" "\<not> is_space E (hd m)" "\<not> is_space E (last m)" "length m \<le> 150"
  shows "sublist m (get_context E (pre @ m @ post) (length pre) (length pre + length m))"
proof -
  let ?a = "dropWhile (is_space E) (drop (length pre - 50) pre)"
  let ?b = "rev (dropWhile (is_space E) (rev (take 50 post)))"
  have la: "length ?a \<le> 50"
    by (rule order_trans [OF length_dropWhile_le]) simp
  have cut: "take 200 (?a @ m @ ?b) = ?a @ m @ take (200 - length ?a - length m) ?b"
    using la assms(4) by simp
  have "sublist m (?a @ m @ ?b)" "sublist m (?a @ m @ (take (200 - length ?a - length m) ?b @ str ''...''))"
    by (rule sublist_appendI)+
  then show ?thesis
    unfolding get_context_sandwich [OF assms(1-3)] Let_def cut by simp
qed

lemma get_context_length: "length (get_context E line s e) \<le> 203"
  by (simp add: get_context_def Let_def str_def)

lemma finditer_skip:
  "finditer_from r n prev (xs @ rest) (length xs) =
     finditer_from r (n + length xs) (if xs = [] then prev else Some (last xs)) rest 0"
  by (induction xs arbitrary: n prev) auto

lemma finditer_no_start:
  assumes "\<And>n prev rest. ends r (n, prev, c # rest) = []"
  shows "finditer_from r n prev (replicate k c @ rest) 0 =
           finditer_from r (n + k) (if k = 0 then prev else Some c) rest 0"
  by (induction k arbitrary: n prev) (auto simp: assms)

lemma email_not_at_hash: "ends (email_rx E) (n, prev, of_char CHR ''#'' # rest) = []"
  by (simp add: email_rx_def rx_seq_def in_range_def one_of_def str_def)

lemma email_not_at_end: "ends (email_rx E) (n, prev, []) = []"
  by (simp add: email_rx_def rx_seq_def)

lemma long_email_Cons:
  "long_email = of_char CHR ''a'' # (replicate 145 (of_char CHR ''a'') @ str ''@b.co'')"
  by (simp add: long_email_def numeral_eq_Suc)

lemma long_email_length: "length long_email = 151"
  by (simp add: long_email_def str_def)

lemma long_email_first_match:
  "take 1 (ends (email_rx E)
             (100, Some (of_char CHR ''#''), long_email @ replicate 100 (of_char CHR ''#''))) =
     [(251, Some (of_char CHR ''o''), replicate 100 (of_char CHR ''#''))]"
  by code_simp

lemma long_email_matches: "finditer (email_rx E) long_email_line = [(100, 251)]"
proof -
  let ?r = "email_rx E"
  let ?fill = "replicate 100 (of_char CHR ''#'') :: pystr"
  let ?tl = "replicate 145 (of_char CHR ''a'') @ str ''@b.co'' :: pystr"
  have tl_len: "length ?tl = 150" and tl_last: "last ?tl = of_char CHR ''o''"
    by (simp_all add: str_def)
  have tl_ne: "?tl \<noteq> []"
    by (simp add: str_def)
  obtain more where first: "ends ?r (100, Some (of_char CHR ''#''), long_email @ ?fill) =
       (251, Some (of_char CHR ''o''), ?fill) # more"
    using long_email_first_match [of E]
    by (cases "ends ?r (100, Some (of_char CHR ''#''), long_email @ ?fill)") auto
  have "finditer ?r long_email_line =
          finditer_from ?r 100 (Some (of_char CHR ''#'')) (long_email @ ?fill) 0"
    unfolding finditer_def long_email_line_def
    using finditer_no_start [of ?r "of_char CHR ''#''" 0 None 100 "long_email @ ?fill",
            OF email_not_at_hash]
    by simp
  also have "\<dots> = (100, 251) # finditer_from ?r 101 (Some (of_char CHR ''a'')) (?tl @ ?fill) 150"
    using first by (simp add: long_email_Cons)
  also have "finditer_from ?r 101 (Some (of_char CHR ''a'')) (?tl @ ?fill) 150 =
               finditer_from ?r 251 (Some (of_char CHR ''o'')) ?fill 0"
    using finditer_skip [of ?r 101 "Some (of_char CHR ''a'')" ?tl ?fill] tl_ne
    unfolding tl_len tl_last by simp
  also have "\<dots> = finditer_from ?r 351 (Some (of_char CHR ''#'')) [] 0"
    using finditer_no_start [of ?r "of_char CHR ''#''" 251 "Some (of_char CHR ''o'')" 100 "[]",
            OF email_not_at_hash]
    by simp
  also have "\<dots> = []"
    by (simp add: email_not_at_end)
  finally show ?thesis .
qed

lemma slice_middle: "slice (pre @ m @ post) (length pre) (length pre + length m) = m"
  by (simp add: slice_def)

lemma long_email_domain:
  "(case split_on (of_char CHR ''@'') long_email of
      _ # domain # _ \<Rightarrow> of_char CHR ''.'' \<in> set domain
    | _ \<Rightarrow> False)"
  by code_simp

lemma long_email_context:
  "get_context E long_email_line 100 251 =
     replicate 50 (of_char CHR ''#'') @ replicate 146 (of_char CHR ''a'') @ str ''@b.c...''"
proof -
  have ends_ok: "long_email \<noteq> []" "\<not> is_space E (hd long_email)" "\<not> is_space E (last long_email)"
    by (simp_all add: long_email_def str_def is_space_def)
  have "get_context E long_email_line 100 251 =
          take 200 (replicate 50 (of_char CHR ''#'') @ long_email @
                    replicate 50 (of_char CHR ''#'')) @ str ''...''"
    using get_context_sandwich [OF ends_ok, of "replicate 100 (of_char CHR ''#'')"
            "replicate 100 (of_char CHR ''#'')"]
    by (simp add: long_email_line_def long_email_length is_space_def Let_def)
  also have "\<dots> = replicate 50 (of_char CHR ''#'') @ replicate 146 (of_char CHR ''a'') @
                    str ''@b.c...''"
    by (simp add: long_email_def str_def)
  finally show ?thesis .
qed

lemma long_email_cut: "\<not> sublist long_email (get_context E long_email_line 100 251)"
proof
  assume "sublist long_email (get_context E long_email_line 100 251)"
  then have "set long_email \<subseteq> set (get_context E long_email_line 100 251)"
    by (rule set_mono_sublist)
  moreover have "of_char CHR ''o'' \<in> set long_email"
    by (simp add: long_email_def str_def)
  ultimately have "of_char CHR ''o'' \<in> set (get_context E long_email_line 100 251)"
    by blast
  then show False
    unfolding long_email_context by (simp add: str_def)
qed

lemma long_email_finding:
  "detect_email E long_email_line 1 =
     [\<lparr>finding_type = ''email'', value_text = long_email,
       value_hash = hash_value E (lower E long_email), line_number = 1,
       column_start = 100, column_end = 251,
       context_text = get_context E long_email_line 100 251, confidence = ''high''\<rparr>]"
proof -
  have v: "slice long_email_line 100 251 = long_email"
    using slice_middle [of "replicate 100 (of_char CHR ''#'')" long_email
            "replicate 100 (of_char CHR ''#'')"]
    by (simp add: long_email_line_def long_email_length)
  have at: "of_char CHR ''@'' \<in> set long_email"
    by (simp add: long_email_def str_def)
  show ?thesis
    using at long_email_domain
    by (simp add: detect_email_def long_email_matches email_match_def v)
qed

text \<open>
  C9, as the code has it. The context is never longer than 203 characters: it is the slice
  from 50 characters before the match to 50 characters after it, stripped of whitespace
  at both ends, and cut to 200 characters followed by \<open>...\<close> when it is longer. A match of
  at most 150 characters that neither begins nor ends with whitespace, with 100 characters
  of filler on each side, is contained in its context.
\<close>

theorem get_context_bounded_and_contains_match:
  "length (get_context E line start end') \<le> 203 \<and>
   get_context E line start end' =
     (let ctx = strip E (slice line (start - 50) (min (length line) (end' + 50)))
      in if 200 < length ctx then take 200 ctx @ str ''...'' else ctx) \<and>
   (m \<noteq> [] \<and> \<not> is_space E (hd m) \<and> \<not> is_space E (last m) \<and> length m \<le> 150 \<and>
    length pre = 100 \<and> length post = 100 \<longrightarrow>
      sublist m (get_context E (pre @ m @ post) 100 (100 + length m)))"
  using get_context_length [of E line start end'] get_context_contains [of m E pre post]
  by (auto simp: get_context_def CONTEXT_WINDOW_def)

theorem get_context_bounded_and_contains_match_witness:
  "\<forall>E. length (get_context E (replicate 100 (of_char CHR ''A'') @ str ''SENSITIVE'' @
                               replicate 100 (of_char CHR ''B'')) 100 109) \<le> 203 \<and>
       sublist (str ''SENSITIVE'')
         (get_context E (replicate 100 (of_char CHR ''A'') @ str ''SENSITIVE'' @
                         replicate 100 (of_char CHR ''B'')) 100 109)"
proof
  fix E
  let ?line = "replicate 100 (of_char CHR ''A'') @ str ''SENSITIVE'' @
               replicate 100 (of_char CHR ''B'') :: pystr"
  note inst = get_context_bounded_and_contains_match
                [of E ?line 100 109 "str ''SENSITIVE''" "replicate 100 (of_char CHR ''A'')"
                    "replicate 100 (of_char CHR ''B'')"]
  have span: "100 + length (str ''SENSITIVE'') = 109"
    by (simp add: str_def)
  have "sublist (str ''SENSITIVE'') (get_context E ?line 100 (100 + length (str ''SENSITIVE'')))"
    by (rule inst [THEN conjunct2, THEN conjunct2, THEN mp]) (simp add: str_def is_space_def)
  then have inside: "sublist (str ''SENSITIVE'') (get_context E ?line 100 109)"
    unfolding span .
  show "length (get_context E ?line 100 109) \<le> 203 \<and>
        sublist (str ''SENSITIVE'') (get_context E ?line 100 109)"
    using inst [THEN conjunct1] inside by (rule conjI)
qed

text \<open>
  C9 as stated fails for a long match: the e-mail pattern has no upper length, and a
  match of 151 characters between two runs of 100 filler characters is reported with a
  context that stops after its first 150 characters.
\<close>

theorem long_match_is_cut_counterexample:
  "\<forall>E. \<exists>f. detect_email E long_email_line 1 = [f] \<and>
            column_start f = 100 \<and> column_end f = 251 \<and>
            value_text f = long_email \<and>
            \<not> sublist (value_text f) (context_text f)"
  by (simp add: long_email_finding long_email_cut)


subsection \<open>What a match consumes\<close>

lemma runs_consumes:
  "(e, pe, re) \<in> set (runs p k (n, prev, rest)) \<Longrightarrow>
   \<exists>xs. rest = xs @ re \<and> e = n + length xs \<and> list_all p xs"
proof (induction k arbitrary: n prev rest)
  case 0
  then show ?case by simp
next
  case (Suc k)
  show ?case
  proof (cases rest)
    case Nil
    with Suc.prems show ?thesis by simp
  next
    case (Cons c cs)
    show ?thesis
    proof (cases "(e, pe, re) = (n, prev, rest)")
      case True
      then show ?thesis by simp
    next
      case False
      with Suc.prems Cons have pc: "p c" and "(e, pe, re) \<in> set (runs p k (Suc n, Some c, cs))"
        by (auto split: if_splits)
      from Suc.IH [OF this(2)] obtain xs where "cs = xs @ re" "e = Suc n + length xs" "list_all p xs"
        by blast
      with pc Cons have "rest = (c # xs) @ re \<and> e = n + length (c # xs) \<and> list_all p (c # xs)"
        by simp
      then show ?thesis by blast
    qed
  qed
qed

lemma ends_consumes:
  "(e, pe, re) \<in> set (ends r (n, prev, rest)) \<Longrightarrow>
   \<exists>xs. rest = xs @ re \<and> e = n + length xs \<and> list_all (rx_chars r) xs"
proof (induction r arbitrary: n prev rest e pe re)
  case Eps
  then show ?case by simp
next
  case (Cls p)
  then show ?case by (cases rest) (auto split: if_splits)
next
  case (Bnd w)
  then show ?case by (auto split: if_splits)
next
  case (Seq a b)
  from Seq.prems obtain n1 p1 r1 where mid: "(n1, p1, r1) \<in> set (ends a (n, prev, rest))"
    and fin: "(e, pe, re) \<in> set (ends b (n1, p1, r1))"
    by auto
  from Seq.IH(1) [OF mid] obtain xs where xs: "rest = xs @ r1" "n1 = n + length xs"
    "list_all (rx_chars a) xs" by blast
  from Seq.IH(2) [OF fin] obtain ys where ys: "r1 = ys @ re" "e = n1 + length ys"
    "list_all (rx_chars b) ys" by blast
  have "rest = (xs @ ys) @ re \<and> e = n + length (xs @ ys) \<and> list_all (rx_chars (Seq a b)) (xs @ ys)"
    using xs ys by (auto simp: list_all_iff)
  then show ?case by blast
next
  case (Alt a b)
  from Alt.prems have "(e, pe, re) \<in> set (ends a (n, prev, rest)) \<or>
                       (e, pe, re) \<in> set (ends b (n, prev, rest))"
    by simp
  then show ?case
    using Alt.IH by (fastforce simp: list_all_iff)
next
  case (Opt a)
  from Opt.prems have "(e, pe, re) \<in> set (ends a (n, prev, rest)) \<or> (e, pe, re) = (n, prev, rest)"
    by auto
  then show ?case
    using Opt.IH by fastforce
next
  case (Many p lo hi)
  then have "(e, pe, re) \<in> set (runs p (case hi of None \<Rightarrow> length rest | Some h \<Rightarrow> h) (n, prev, rest))"
    by (auto dest: in_set_dropD)
  then show ?case
    using runs_consumes by fastforce
qed

lemma finditer_from_spans:
  "(s, e) \<in> set (finditer_from r n prev rest skip) \<Longrightarrow>
   \<exists>pre xs post. rest = pre @ xs @ post \<and> s = n + length pre \<and> e = s + length xs \<and>
                  list_all (rx_chars r) xs"
proof (induction rest arbitrary: n prev skip)
  case Nil
  note prems0 = Nil.prems
  show ?case
  proof (cases "ends r (n, prev, [])")
    case Nil
    have "finditer_from r n prev [] skip = []"
      using Nil by simp
    with prems0 have "(s, e) \<in> set []"
      by (simp only:)
    then show ?thesis
      by (simp only: list.set empty_iff)
  next
    case (Cons cur more)
    obtain e1 pe re where cur: "cur = (e1, pe, re)" by (cases cur)
    have "finditer_from r n prev [] skip = (if skip = 0 then [(n, e1)] else [])"
      using Cons cur by simp
    with prems0 have "(s, e) \<in> set (if skip = 0 then [(n, e1)] else [])"
      by (simp only:)
    then have se: "s = n" "e = e1"
      by (cases "skip = 0"; simp)+
    have "(e1, pe, re) \<in> set (ends r (n, prev, []))"
      unfolding Cons cur by simp
    from ends_consumes [OF this] obtain xs where xs: "[] = xs @ re" "e1 = n + length xs"
      "list_all (rx_chars r) xs" by blast
    show ?thesis
      by (rule exI [of _ "[]"], rule exI [of _ xs], rule exI [of _ re]) (use xs se in simp)
  qed
next
  case (Cons c cs)
  note IH = Cons.IH and prems = Cons.prems
  have later: "\<exists>pre xs post. c # cs = pre @ xs @ post \<and> s = n + length pre \<and>
                 e = s + length xs \<and> list_all (rx_chars r) xs"
    if "(s, e) \<in> set (finditer_from r (Suc n) (Some c) cs k)" for k
  proof -
    from IH [OF that] obtain pre xs post where *: "cs = pre @ xs @ post"
      "s = Suc n + length pre" "e = s + length xs" "list_all (rx_chars r) xs" by blast
    show ?thesis
      by (rule exI [of _ "c # pre"], rule exI [of _ xs], rule exI [of _ post]) (use * in simp)
  qed
  show ?case
  proof (cases "0 < skip")
    case True
    then have "(s, e) \<in> set (finditer_from r (Suc n) (Some c) cs (skip - 1))"
      using prems by simp
    then show ?thesis by (rule later)
  next
    case False
    then have skip0: "skip = 0" by simp
    show ?thesis
    proof (cases "ends r (n, prev, c # cs)")
      case Nil
      then have "(s, e) \<in> set (finditer_from r (Suc n) (Some c) cs 0)"
        using prems skip0 by simp
      then show ?thesis by (rule later)
    next
      case (Cons cur more)
      obtain e1 pe re where cur: "cur = (e1, pe, re)" by (cases cur)
      have step: "finditer_from r n prev (c # cs) skip =
                    (n, e1) # finditer_from r (Suc n) (Some c) cs (e1 - n - 1)"
        using Cons cur skip0 by simp
      have "(s, e) = (n, e1) \<or>
            (s, e) \<in> set (finditer_from r (Suc n) (Some c) cs (e1 - n - 1))"
        using prems unfolding step by simp
      then show ?thesis
      proof
        assume first: "(s, e) = (n, e1)"
        have "(e1, pe, re) \<in> set (ends r (n, prev, c # cs))"
          unfolding Cons cur by simp
        from ends_consumes [OF this] obtain xs where xs: "c # cs = xs @ re" "e1 = n + length xs"
          "list_all (rx_chars r) xs" by blast
        show ?thesis
          by (rule exI [of _ "[]"], rule exI [of _ xs], rule exI [of _ re]) (use xs first in simp)
      next
        assume "(s, e) \<in> set (finditer_from r (Suc n) (Some c) cs (e1 - n - 1))"
        then show ?thesis by (rule later)
      qed
    qed
  qed
qed

lemma finditer_match_chars:
  assumes "m \<in> set (finditer r line)"
  shows "list_all (rx_chars r) (slice line (fst m) (snd m))"
proof -
  obtain s e where m: "m = (s, e)" by (cases m)
  have "(s, e) \<in> set (finditer_from r 0 None line 0)"
    using assms unfolding finditer_def m .
  from finditer_from_spans [OF this]
  obtain pre xs post where *: "line = pre @ xs @ post" "s = 0 + length pre" "e = s + length xs"
    "list_all (rx_chars r) xs" by blast
  show ?thesis
    using slice_middle [of pre xs post] * by (simp add: m)
qed
subsection \<open>Credit cards\<close>

lemma credit_card_chars:
  "rx_chars (credit_card_rx E) c \<Longrightarrow> is_decimal E c \<or> sep_dash_space E c"
  by (auto simp: credit_card_rx_def rx_seq_def times_def digits_def numeral_eq_Suc)

lemma digits_of_decimal: "list_all (is_decimal E) s \<Longrightarrow> \<exists>ds. digits_of E s = Inr ds"
  by (induction s) (auto simp: is_decimal_def)

lemma luhn_check_total: "list_all (is_decimal E) s \<Longrightarrow> \<exists>ok. luhn_check E s = Inr ok"
  using digits_of_decimal [of E s] by (auto simp: luhn_check_def)

lemma credit_card_match_total:
  assumes "m \<in> set (finditer (credit_card_rx E) line)"
  shows "\<exists>ok. luhn_check E (strip_separators E (slice line (fst m) (snd m))) = Inr ok"
proof -
  have "list_all (rx_chars (credit_card_rx E)) (slice line (fst m) (snd m))"
    using assms by (rule finditer_match_chars)
  then have "list_all (is_decimal E) (strip_separators E (slice line (fst m) (snd m)))"
    using credit_card_chars by (auto simp: list_all_iff strip_separators_def)
  then show ?thesis by (rule luhn_check_total)
qed

lemma credit_card_loop_total:
  assumes "\<forall>m\<in>set ms. \<exists>ok. luhn_check E (strip_separators E (slice line (fst m) (snd m))) = Inr ok"
  shows "credit_card_loop E line ln ms acc =
           Inr (acc @ map (credit_card_finding E line ln)
                        (filter (\<lambda>m. luhn_check E (strip_separators E (slice line (fst m) (snd m)))
                                      = Inr True) ms))"
  using assms
proof (induction ms arbitrary: acc)
  case Nil
  show ?case by simp
next
  case (Cons m ms)
  then obtain ok where ok: "luhn_check E (strip_separators E (slice line (fst m) (snd m))) = Inr ok"
    by auto
  show ?case
    using Cons ok by (cases ok) simp_all
qed

lemma card_vectors:
  "map_sum id (map value_hash) (detect_credit_card E (str ''5425233430109903'') ln) =
     Inr [hash_value E (str ''5425233430109903'')]"
  "map_sum id (map value_hash) (detect_credit_card E (str ''5425-2334-3010-9903'') ln) =
     Inr [hash_value E (str ''5425233430109903'')]"
  "map_sum id (map value_hash) (detect_credit_card E (str ''5425 2334 3010 9903'') ln) =
     Inr [hash_value E (str ''5425233430109903'')]"
  "map_sum id (map value_hash) (detect_credit_card E (str ''374245455400126'') ln) =
     Inr [hash_value E (str ''374245455400126'')]"
  "map_sum id (map value_hash) (detect_credit_card E (str ''6011111111111117'') ln) =
     Inr [hash_value E (str ''6011111111111117'')]"
  "map_sum id (map value_hash) (detect_credit_card E (str ''6011-1111-1111-1117'') ln) =
     Inr [hash_value E (str ''6011111111111117'')]"
  "map_sum id (map value_hash) (detect_credit_card E (str ''6011 1111 1111 1117'') ln) =
     Inr [hash_value E (str ''6011111111111117'')]"
  "detect_credit_card E (str ''1234567890123456'') ln = Inr []"
  "detect_credit_card E (str ''1111111111111111'') ln = Inr []"
  by code_simp+

lemma amex_with_separators:
  "luhn_check E (str ''3742-4545-5400-126'') = Inr True"
  "detect_credit_card E (str ''3742-4545-5400-126'') ln = Inr []"
  "detect_credit_card E (str ''3742 454554 00126'') ln = Inr []"
  by code_simp+

text \<open>
  The rule of \<open>detect_credit_card\<close>. It never raises, and its findings are those of the
  matches of the pattern whose separator-free text passes \<open>luhn_check\<close>, in order, all with
  confidence \<open>high\<close> and the digest of the separator-free text: a match that fails the
  check gives no finding. The vectors 5425233430109903, 374245455400126 and
  6011111111111117 are accepted, the two of 16 digits also in groups of four with hyphens
  or spaces; 1234567890123456 and 1111111111111111 are rejected. (The pattern takes four
  groups of four or an unbroken run of 15 or 16 digits: 374245455400126 written with
  separators is not matched, lemma \<open>amex_with_separators\<close>.)
\<close>

lemma detect_credit_card_rule:
  "detect_credit_card E line ln =
     Inr (map (credit_card_finding E line ln)
           (filter (\<lambda>m. luhn_check E (strip_separators E (slice line (fst m) (snd m))) = Inr True)
              (finditer (credit_card_rx E) line)))"
  "confidence (credit_card_finding E line ln m) = ''high''"
  "value_hash (credit_card_finding E line ln m) =
     hash_value E (strip_separators E (slice line (fst m) (snd m)))"
proof -
  show "detect_credit_card E line ln =
     Inr (map (credit_card_finding E line ln)
           (filter (\<lambda>m. luhn_check E (strip_separators E (slice line (fst m) (snd m))) = Inr True)
              (finditer (credit_card_rx E) line)))"
    unfolding detect_credit_card_def
    using credit_card_loop_total [of "finditer (credit_card_rx E) line" E line ln "[]"]
      credit_card_match_total [of _ E line]
    by simp
  show "confidence (credit_card_finding E line ln m) = ''high''"
    "value_hash (credit_card_finding E line ln m) =
       hash_value E (strip_separators E (slice line (fst m) (snd m)))"
    by (simp_all add: credit_card_finding_def Let_def)
qed

lemma two_cards_on_a_line:
  "detect_credit_card E (str ''1234567890123456 6011111111111117'') 1 =
     Inr [credit_card_finding E (str ''1234567890123456 6011111111111117'') 1 (17, 33)]"
proof -
  have spans: "finditer (credit_card_rx E) (str ''1234567890123456 6011111111111117'') =
                 [(0, 16), (17, 33)]"
    by code_simp
  have first: "luhn_check E (strip_separators E
                 (slice (str ''1234567890123456 6011111111111117'') 0 16)) = Inr False"
    by code_simp
  have second: "luhn_check E (strip_separators E
                  (slice (str ''1234567890123456 6011111111111117'') 17 33)) = Inr True"
    by code_simp
  show ?thesis
    using detect_credit_card_rule(1) [of E "str ''1234567890123456 6011111111111117''" 1]
    by (simp add: spans first second)
qed

lemma luhn_sums:
  "map_sum id (\<lambda>ds. luhn_sum 0 (rev ds) 0) (digits_of E (str ''4532111111111111'')) = Inr 39"
  "map_sum id (\<lambda>ds. luhn_sum 0 (rev ds) 0) (digits_of E (str ''0000000000000000'')) = Inr 0"
  by code_simp+

text \<open>
  C1, where the code departs from the claim and from the tests of the repository
  (\<open>test_valid_credit_cards\<close>, \<open>test_luhn_with_spaces\<close>, \<open>test_detect_valid_credit_card\<close>,
  \<open>test_invalid_credit_cards\<close>). The claim and the tests have 4532111111111111 accepted,
  with or without separators, and 0000000000000000 rejected. \<open>luhn_check\<close> answers
  \<open>False\<close> for 4532111111111111 in each of its three formats (its sum is 39), so
  \<open>detect_credit_card\<close> emits no finding for it, also on the line of the test,
  \<open>Card number: 4532-1111-1111-1111\<close>; and it answers \<open>True\<close> for 0000000000000000
  (its sum is 0), so the detector emits a finding for it in each of its three formats.
\<close>

theorem luhn_check_departs_from_test_vectors:
  "luhn_check E (str ''4532111111111111'') = Inr False \<and>
   luhn_check E (str ''4532 1111 1111 1111'') = Inr False \<and>
   luhn_check E (str ''4532-1111-1111-1111'') = Inr False \<and>
   detect_credit_card E (str ''4532111111111111'') ln = Inr [] \<and>
   detect_credit_card E (str ''4532-1111-1111-1111'') ln = Inr [] \<and>
   detect_credit_card E (str ''4532 1111 1111 1111'') ln = Inr [] \<and>
   detect_credit_card E (str ''Card number: 4532-1111-1111-1111'') 1 = Inr [] \<and>
   luhn_check E (str ''0000000000000000'') = Inr True \<and>
   map_sum id (map value_hash) (detect_credit_card E (str ''0000000000000000'') ln) =
     Inr [hash_value E (str ''0000000000000000'')] \<and>
   map_sum id (map value_hash) (detect_credit_card E (str ''0000-0000-0000-0000'') ln) =
     Inr [hash_value E (str ''0000000000000000'')] \<and>
   map_sum id (map value_hash) (detect_credit_card E (str ''0000 0000 0000 0000'') ln) =
     Inr [hash_value E (str ''0000000000000000'')]"
proof -
  have a: "luhn_check E (str ''4532111111111111'') = Inr False"
    "luhn_check E (str ''4532 1111 1111 1111'') = Inr False"
    "luhn_check E (str ''4532-1111-1111-1111'') = Inr False"
    "luhn_check E (str ''0000000000000000'') = Inr True"
    by code_simp+
  have b: "detect_credit_card E (str ''4532111111111111'') ln = Inr []"
    "detect_credit_card E (str ''4532-1111-1111-1111'') ln = Inr []"
    "detect_credit_card E (str ''4532 1111 1111 1111'') ln = Inr []"
    "detect_credit_card E (str ''Card number: 4532-1111-1111-1111'') 1 = Inr []"
    by code_simp+
  have c: "map_sum id (map value_hash) (detect_credit_card E (str ''0000000000000000'') ln) =
       Inr [hash_value E (str ''0000000000000000'')]"
    "map_sum id (map value_hash) (detect_credit_card E (str ''0000-0000-0000-0000'') ln) =
       Inr [hash_value E (str ''0000000000000000'')]"
    "map_sum id (map value_hash) (detect_credit_card E (str ''0000 0000 0000 0000'') ln) =
       Inr [hash_value E (str ''0000000000000000'')]"
    by code_simp+
  from a b c show ?thesis
    by (intro conjI) assumption+
qed


subsection \<open>Social security numbers\<close>

lemma ssn_vectors:
  "map value_hash (detect_ssn E (str ''123-45-6789'') ln) = [hash_value E (str ''123456789'')]"
  "map value_hash (detect_ssn E (str ''123 45 6789'') ln) = [hash_value E (str ''123456789'')]"
  "map value_hash (detect_ssn E (str ''123456789'') ln) = [hash_value E (str ''123456789'')]"
  "map (\<lambda>m. strip_separators E (slice (str ''123-45-6789'') (fst m) (snd m)))
     (finditer (ssn_rx E) (str ''123-45-6789'')) = [str ''123456789'']"
  "map (\<lambda>m. strip_separators E (slice (str ''123 45 6789'') (fst m) (snd m)))
     (finditer (ssn_rx E) (str ''123 45 6789'')) = [str ''123456789'']"
  "map (\<lambda>m. strip_separators E (slice (str ''123456789'') (fst m) (snd m)))
     (finditer (ssn_rx E) (str ''123456789'')) = [str ''123456789'']"
  "detect_ssn E (str ''000-45-6789'') ln = []"
  "detect_ssn E (str ''666-45-6789'') ln = []"
  "detect_ssn E (str ''900-45-6789'') ln = []"
  by code_simp+

text \<open>
  C4. For a match of the pattern whose separator-free text has nine digits, \<open>detect_ssn\<close>
  emits no finding when that text starts with \<open>000\<close>, \<open>666\<close> or \<open>9\<close>, and the finding of
  the match otherwise, with the digest of the separator-free text. \<open>123-45-6789\<close>,
  \<open>123 45 6789\<close> and \<open>123456789\<close> have the same separator-free text and the same digest.
\<close>

theorem ssn_rejects_invalid_area_only:
  "(\<forall>m \<in> set (finditer (ssn_rx E) line).
      length (strip_separators E (slice line (fst m) (snd m))) = 9 \<and>
      str_isdigit E (strip_separators E (slice line (fst m) (snd m))) \<longrightarrow>
        ssn_match E line ln m =
          (if prefix (str ''000'') (strip_separators E (slice line (fst m) (snd m))) \<or>
              prefix (str ''666'') (strip_separators E (slice line (fst m) (snd m))) \<or>
              prefix (str ''9'') (strip_separators E (slice line (fst m) (snd m)))
           then [] else [ssn_finding E line ln m]) \<and>
        value_hash (ssn_finding E line ln m) =
          hash_value E (strip_separators E (slice line (fst m) (snd m)))) \<and>
   detect_ssn E line ln = concat (map (ssn_match E line ln) (finditer (ssn_rx E) line)) \<and>
   map (\<lambda>m. strip_separators E (slice (str ''123-45-6789'') (fst m) (snd m)))
     (finditer (ssn_rx E) (str ''123-45-6789'')) = [str ''123456789''] \<and>
   map (\<lambda>m. strip_separators E (slice (str ''123 45 6789'') (fst m) (snd m)))
     (finditer (ssn_rx E) (str ''123 45 6789'')) = [str ''123456789''] \<and>
   map (\<lambda>m. strip_separators E (slice (str ''123456789'') (fst m) (snd m)))
     (finditer (ssn_rx E) (str ''123456789'')) = [str ''123456789''] \<and>
   map value_hash (detect_ssn E (str ''123-45-6789'') ln) = [hash_value E (str ''123456789'')] \<and>
   map value_hash (detect_ssn E (str ''123 45 6789'') ln) = [hash_value E (str ''123456789'')] \<and>
   map value_hash (detect_ssn E (str ''123456789'') ln) = [hash_value E (str ''123456789'')]"
proof -
  have "ssn_match E line ln m =
          (if prefix (str ''000'') (strip_separators E (slice line (fst m) (snd m))) \<or>
              prefix (str ''666'') (strip_separators E (slice line (fst m) (snd m))) \<or>
              prefix (str ''9'') (strip_separators E (slice line (fst m) (snd m)))
           then [] else [ssn_finding E line ln m])"
    if "length (strip_separators E (slice line (fst m) (snd m))) = 9"
      and "str_isdigit E (strip_separators E (slice line (fst m) (snd m)))" for m
    using that by (simp add: ssn_match_def Let_def)
  moreover have "value_hash (ssn_finding E line ln m) =
          hash_value E (strip_separators E (slice line (fst m) (snd m)))" for m
    by (simp add: ssn_finding_def Let_def)
  ultimately have general: "\<forall>m \<in> set (finditer (ssn_rx E) line).
      length (strip_separators E (slice line (fst m) (snd m))) = 9 \<and>
      str_isdigit E (strip_separators E (slice line (fst m) (snd m))) \<longrightarrow>
        ssn_match E line ln m =
          (if prefix (str ''000'') (strip_separators E (slice line (fst m) (snd m))) \<or>
              prefix (str ''666'') (strip_separators E (slice line (fst m) (snd m))) \<or>
              prefix (str ''9'') (strip_separators E (slice line (fst m) (snd m)))
           then [] else [ssn_finding E line ln m]) \<and>
        value_hash (ssn_finding E line ln m) =
          hash_value E (strip_separators E (slice line (fst m) (snd m)))"
    by blast
  show ?thesis
    using general ssn_vectors(1-6) detect_ssn_def [of E line ln]
    by (intro conjI) assumption+
qed

theorem ssn_rejects_invalid_area_only_witness:
  "\<forall>E. finditer (ssn_rx E) (str ''SSN: 123-45-6789 or 666-45-6789'') = [(5, 16), (20, 31)] \<and>
       ssn_match E (str ''SSN: 123-45-6789 or 666-45-6789'') 1 (5, 16) =
         [ssn_finding E (str ''SSN: 123-45-6789 or 666-45-6789'') 1 (5, 16)] \<and>
       ssn_match E (str ''SSN: 123-45-6789 or 666-45-6789'') 1 (20, 31) = []"
proof
  fix E
  let ?line = "str ''SSN: 123-45-6789 or 666-45-6789''"
  have spans: "finditer (ssn_rx E) ?line = [(5, 16), (20, 31)]"
    by code_simp
  have n1: "strip_separators E (slice ?line 5 16) = str ''123456789''"
    and n2: "strip_separators E (slice ?line 20 31) = str ''666456789''"
    by code_simp+
  have nine: "length (str ''123456789'') = 9" "length (str ''666456789'') = 9"
    "str_isdigit E (str ''123456789'')" "str_isdigit E (str ''666456789'')"
    by code_simp+
  have pre: "\<not> prefix (str ''000'') (str ''123456789'')" "\<not> prefix (str ''666'') (str ''123456789'')"
    "\<not> prefix (str ''9'') (str ''123456789'')" "prefix (str ''666'') (str ''666456789'')"
    by code_simp+
  note general = ssn_rejects_invalid_area_only [of E ?line 1, THEN conjunct1, unfolded spans]
  have "ssn_match E ?line 1 (5, 16) = [ssn_finding E ?line 1 (5, 16)]"
    using general nine pre by (simp add: n1)
  moreover have "ssn_match E ?line 1 (20, 31) = []"
    using general nine pre by (simp add: n2)
  ultimately show "finditer (ssn_rx E) ?line = [(5, 16), (20, 31)] \<and>
       ssn_match E ?line 1 (5, 16) = [ssn_finding E ?line 1 (5, 16)] \<and>
       ssn_match E ?line 1 (20, 31) = []"
    using spans by simp
qed

subsection \<open>Phone numbers\<close>

lemma phone_vectors:
  "detect_phone E (str ''(555) 123-4567'') ln = []"
  "detect_phone E (str ''000-000-0000'') ln = []"
  "map (\<lambda>f. (finding_type f, phone_normalize E (value_text f), value_hash f))
     (detect_phone E (str ''2025551234'') ln) =
     [(''phone_us'', str ''2025551234'', hash_value E (str ''2025551234''))]"
  "map (\<lambda>f. (finding_type f, phone_normalize E (value_text f), value_hash f))
     (detect_phone E (str ''(202) 555-1234'') ln) =
     [(''phone_us'', str ''2025551234'', hash_value E (str ''2025551234''))]"
  "map (\<lambda>f. (finding_type f, phone_normalize E (value_text f), value_hash f))
     (detect_phone E (str ''+1-202-555-1234'') ln) =
     [(''phone_us'', str ''2025551234'', hash_value E (str ''2025551234''))]"
  by code_simp+

lemma phone_match_area:
  "f \<in> set (phone_match E line ln m) \<Longrightarrow>
   length (phone_normalize E (value_text f)) = 10 \<and>
   \<not> prefix (str ''000'') (phone_normalize E (value_text f)) \<and>
   \<not> prefix (str ''555'') (phone_normalize E (value_text f)) \<and>
   value_hash f = hash_value E (phone_normalize E (value_text f))"
  by (auto simp: phone_match_def phone_finding_def Let_def split: if_splits)

text \<open>
  C3. A match of the pattern whose normalized text starts with \<open>000\<close> or \<open>555\<close> gives no
  finding, so every finding of \<open>detect_phone\<close> has ten normalized characters that start
  with neither, and carries their digest. The lines \<open>(555) 123-4567\<close> and \<open>000-000-0000\<close>
  give no finding; \<open>2025551234\<close>, \<open>(202) 555-1234\<close> and \<open>+1-202-555-1234\<close> each give one
  \<open>phone_us\<close> finding with the normalized text \<open>2025551234\<close> and the same digest.
\<close>

theorem phone_rejects_area_000_and_555:
  "(\<forall>m \<in> set (finditer (phone_us_rx E) line).
      prefix (str ''000'') (phone_normalize E (slice line (fst m) (snd m))) \<or>
      prefix (str ''555'') (phone_normalize E (slice line (fst m) (snd m))) \<longrightarrow>
        phone_match E line ln m = []) \<and>
   (\<forall>f \<in> set (detect_phone E line ln).
      length (phone_normalize E (value_text f)) = 10 \<and>
      \<not> prefix (str ''000'') (phone_normalize E (value_text f)) \<and>
      \<not> prefix (str ''555'') (phone_normalize E (value_text f)) \<and>
      value_hash f = hash_value E (phone_normalize E (value_text f))) \<and>
   detect_phone E (str ''(555) 123-4567'') ln = [] \<and>
   detect_phone E (str ''000-000-0000'') ln = [] \<and>
   map (\<lambda>f. (finding_type f, phone_normalize E (value_text f), value_hash f))
     (detect_phone E (str ''2025551234'') ln) =
     [(''phone_us'', str ''2025551234'', hash_value E (str ''2025551234''))] \<and>
   map (\<lambda>f. (finding_type f, phone_normalize E (value_text f), value_hash f))
     (detect_phone E (str ''(202) 555-1234'') ln) =
     [(''phone_us'', str ''2025551234'', hash_value E (str ''2025551234''))] \<and>
   map (\<lambda>f. (finding_type f, phone_normalize E (value_text f), value_hash f))
     (detect_phone E (str ''+1-202-555-1234'') ln) =
     [(''phone_us'', str ''2025551234'', hash_value E (str ''2025551234''))]"
proof -
  have a: "\<forall>m \<in> set (finditer (phone_us_rx E) line).
      prefix (str ''000'') (phone_normalize E (slice line (fst m) (snd m))) \<or>
      prefix (str ''555'') (phone_normalize E (slice line (fst m) (snd m))) \<longrightarrow>
        phone_match E line ln m = []"
    by (simp add: phone_match_def Let_def)
  have b: "\<forall>f \<in> set (detect_phone E line ln).
      length (phone_normalize E (value_text f)) = 10 \<and>
      \<not> prefix (str ''000'') (phone_normalize E (value_text f)) \<and>
      \<not> prefix (str ''555'') (phone_normalize E (value_text f)) \<and>
      value_hash f = hash_value E (phone_normalize E (value_text f))"
    unfolding detect_phone_def using phone_match_area by fastforce
  show ?thesis
    using a b phone_vectors by (intro conjI) assumption+
qed

theorem phone_rejects_area_000_and_555_witness:
  "\<forall>E. finditer (phone_us_rx E) (str ''Call: (555) 123-4567'') = [(7, 20)] \<and>
       phone_normalize E (slice (str ''Call: (555) 123-4567'') 7 20) = str ''5551234567'' \<and>
       phone_match E (str ''Call: (555) 123-4567'') 1 (7, 20) = []"
proof
  fix E
  let ?line = "str ''Call: (555) 123-4567''"
  have spans: "finditer (phone_us_rx E) ?line = [(7, 20)]"
    by code_simp
  have n: "phone_normalize E (slice ?line 7 20) = str ''5551234567''"
    by code_simp
  have p: "prefix (str ''555'') (str ''5551234567'')"
    by code_simp
  note inst = phone_rejects_area_000_and_555 [of E ?line 1]
  have "phone_match E ?line 1 (7, 20) = []"
    using inst [THEN conjunct1, unfolded spans] p by (simp add: n)
  then show "finditer (phone_us_rx E) ?line = [(7, 20)] \<and>
       phone_normalize E (slice ?line 7 20) = str ''5551234567'' \<and>
       phone_match E ?line 1 (7, 20) = []"
    using spans n by simp
qed


section \<open>Verification: the streaming reader\<close>

lemma stream_empty_chunks:
  "concat chunks = [] \<Longrightarrow>
   stream_chunks E (map Inr chunks) n [] fs log =
     (None, n, [], fs, log @ replicate (Suc (length chunks)) ReadChunk)"
proof (induction chunks arbitrary: log)
  case Nil
  show ?case by simp
next
  case (Cons c chunks)
  then have c: "c = []" and rest: "concat chunks = []"
    by simp_all
  show ?case
    using Cons.IH [OF rest, of "log @ [ReadChunk]"]
    by (simp add: c decode_chunk_def replicate_app_Cons_same)
qed

lemma is_text_file_empty:
  assumes "list_ex (\<lambda>ext. suffix (str ext) (lower E key)) text_extensions \<or>
           get_range obj = Inr []"
  shows "\<exists>log'. is_text_file E obj key log = (Inr True, log')"
  using assms by (auto simp: is_text_file_def)

text \<open>
  C5, as the code has it. An object of size 0 is scanned to no findings and no error
  message when the maximum size is no negative number, the body yields no byte, and the
  object passes for text: its key ends in one of the text extensions, or the ranged read
  of its first 1024 bytes is answered with no bytes. An object whose \<open>head_object\<close> size
  is above the maximum is answered with the message \<open>File too large: <size> bytes\<close>
  after that one request: no ranged read, no \<open>get_object\<close>, no chunk.
\<close>

theorem empty_completes_and_oversize_fails_unread:
  "(head_object obj = Inr 0 \<and> 0 \<le> max_file_size cfg \<and>
    (list_ex (\<lambda>ext. suffix (str ext) (lower E key)) text_extensions \<or>
     get_range obj = Inr []) \<and>
    get_object obj = Inr (map Inr chunks) \<and> concat chunks = [] \<longrightarrow>
      (\<exists>log. scan_file_streaming E cfg obj key = ([], None, log))) \<and>
   (head_object obj = Inr n \<and> max_file_size cfg < n \<longrightarrow>
      scan_file_streaming E cfg obj key =
        ([], Some (''File too large: '' @ str_int n @ '' bytes''), [HeadObject]))"
proof (intro conjI impI)
  assume a: "head_object obj = Inr 0 \<and> 0 \<le> max_file_size cfg \<and>
    (list_ex (\<lambda>ext. suffix (str ext) (lower E key)) text_extensions \<or>
     get_range obj = Inr []) \<and>
    get_object obj = Inr (map Inr chunks) \<and> concat chunks = []"
  then obtain log' where t: "is_text_file E obj key [HeadObject] = (Inr True, log')"
    using is_text_file_empty [of E key obj "[HeadObject]"] by blast
  have h: "get_file_size obj [] = (Inr (Some 0), [HeadObject])"
    using a by (simp add: get_file_size_def)
  have g: "get_object obj = Inr (map Inr chunks)"
    using a by simp
  have e: "concat chunks = []"
    using a by simp
  show "\<exists>log. scan_file_streaming E cfg obj key = ([], None, log)"
    using a stream_empty_chunks [OF e, of E 0 "[]" "log' @ [GetObject]"]
    by (simp add: scan_file_streaming_def h t g)
next
  assume "head_object obj = Inr n \<and> max_file_size cfg < n"
  then show "scan_file_streaming E cfg obj key =
        ([], Some (''File too large: '' @ str_int n @ '' bytes''), [HeadObject])"
    by (simp add: scan_file_streaming_def get_file_size_def)
qed

lemma four_bytes: "str_int 4 = ''4''"
  by code_simp

lemma notes_txt_is_text:
  "list_ex (\<lambda>ext. suffix (str ext) (lower E (str ''notes.txt''))) text_extensions"
  by code_simp

lemma notes_is_not_text:
  "\<not> list_ex (\<lambda>ext. suffix (str ext) (lower E (str ''notes''))) text_extensions"
  by code_simp

theorem empty_completes_and_oversize_fails_unread_witness:
  "\<forall>E. (\<exists>log. scan_file_streaming E default_config empty_object (str ''notes.txt'') =
               ([], None, log)) \<and>
       (\<exists>log. scan_file_streaming E default_config (served []) (str ''notes'') =
               ([], None, log)) \<and>
       scan_file_streaming E (default_config\<lparr>max_file_size := 3\<rparr>) (served [[1, 2, 3, 4]])
         (str ''notes'') = ([], Some ''File too large: 4 bytes'', [HeadObject])"
proof
  fix E
  note inst1 = empty_completes_and_oversize_fails_unread
                [of empty_object default_config E "str ''notes.txt''" "[]" 0]
  note inst2 = empty_completes_and_oversize_fails_unread
                [of "served []" default_config E "str ''notes''" "[]" 0]
  note inst3 = empty_completes_and_oversize_fails_unread
                [of "served [[1, 2, 3, 4]]" "default_config\<lparr>max_file_size := 3\<rparr>" E
                    "str ''notes''" "[]" 4]
  have "\<exists>log. scan_file_streaming E default_config empty_object (str ''notes.txt'') =
               ([], None, log)"
    by (rule inst1 [THEN conjunct1, THEN mp])
      (simp add: default_config_def empty_object_def notes_txt_is_text)
  moreover have "\<exists>log. scan_file_streaming E default_config (served []) (str ''notes'') =
                       ([], None, log)"
    by (rule inst2 [THEN conjunct1, THEN mp]) (simp add: default_config_def served_def)
  moreover have "scan_file_streaming E (default_config\<lparr>max_file_size := 3\<rparr>)
                   (served [[1, 2, 3, 4]]) (str ''notes'') =
                 ([], Some (''File too large: '' @ str_int 4 @ '' bytes''), [HeadObject])"
    by (rule inst3 [THEN conjunct2, THEN mp]) (simp add: served_def)
  ultimately show "(\<exists>log. scan_file_streaming E default_config empty_object (str ''notes.txt'') =
               ([], None, log)) \<and>
       (\<exists>log. scan_file_streaming E default_config (served []) (str ''notes'') =
               ([], None, log)) \<and>
       scan_file_streaming E (default_config\<lparr>max_file_size := 3\<rparr>) (served [[1, 2, 3, 4]])
         (str ''notes'') = ([], Some ''File too large: 4 bytes'', [HeadObject])"
    by (simp add: four_bytes)
qed

lemma empty_object_with_refused_sample:
  assumes "\<not> list_ex (\<lambda>ext. suffix (str ext) (lower E key)) text_extensions"
    and "head_object obj = Inr 0" and "0 \<le> max_file_size cfg"
    and "get_range obj = Inl (ClientError m)"
  shows "scan_file_streaming E cfg obj key =
           ([], Some ''Non-text file, skipped'', [HeadObject, GetObjectRange])"
  using assms by (simp add: scan_file_streaming_def get_file_size_def is_text_file_def)

text \<open>
  C5 as stated fails for an object of no bytes whose key has no text extension when the
  store refuses the ranged read of bytes 0-1023, as S3 does for an object of length 0
  (no byte of the range exists: \<open>InvalidRange\<close>). \<open>is_text_file\<close> catches the
  \<open>ClientError\<close> and answers \<open>False\<close>, and the scan returns the message
  \<open>Non-text file, skipped\<close> instead of completing.
\<close>

theorem empty_object_refused_sample_counterexample:
  "\<forall>E. scan_file_streaming E default_config empty_object (str ''notes'') =
         ([], Some ''Non-text file, skipped'', [HeadObject, GetObjectRange])"
proof
  fix E
  show "scan_file_streaming E default_config empty_object (str ''notes'') =
         ([], Some ''Non-text file, skipped'', [HeadObject, GetObjectRange])"
    by (rule empty_object_with_refused_sample [of E _ _ _ "''InvalidRange''"])
      (simp_all add: notes_is_not_text empty_object_def default_config_def)
qed


subsection \<open>A chunk boundary inside a character\<close>

text \<open>
  No pattern matches from a space, and none from a character outside ASCII that a space
  follows within two characters: the search of a line that begins with such characters
  starts behind them, whatever the Unicode tables say about them.
\<close>

lemma runs_stop:
  "i < length rest \<Longrightarrow> \<not> p (rest ! i) \<Longrightarrow> length (runs p k (n, prev, rest)) \<le> Suc i"
proof (induction k arbitrary: n prev rest i)
  case 0
  show ?case by simp
next
  case (Suc k)
  then obtain c cs where rest: "rest = c # cs" by (cases rest) auto
  show ?case
  proof (cases i)
    case 0
    with Suc.prems rest show ?thesis by simp
  next
    case (Suc j)
    with Suc.prems rest have "j < length cs" "\<not> p (cs ! j)" by simp_all
    from Suc.IH [OF this, of "Suc n" "Some c"] Suc rest show ?thesis by simp
  qed
qed

lemma many_short:
  "i < lo \<Longrightarrow> i < length rest \<Longrightarrow> \<not> p (rest ! i) \<Longrightarrow> ends (Many p lo hi) (n, prev, rest) = []"
  using runs_stop [of i rest p "case hi of None \<Rightarrow> length rest | Some h \<Rightarrow> h" n prev]
  by simp

lemma many_dead:
  "\<not> p c \<Longrightarrow> 0 < lo \<Longrightarrow> ends (Many p lo hi) (n, prev, c # rest) = []"
  "\<not> p d \<Longrightarrow> 1 < lo \<Longrightarrow> ends (Many p lo hi) (n, prev, c # d # rest) = []"
  "\<not> p e \<Longrightarrow> 2 < lo \<Longrightarrow> ends (Many p lo hi) (n, prev, c # d # e # rest) = []"
  using many_short [of 0 lo "c # rest" p hi n prev]
    many_short [of 1 lo "c # d # rest" p hi n prev]
    many_short [of 2 lo "c # d # e # rest" p hi n prev]
  by simp_all

lemma seq_dead: "ends a cur = [] \<Longrightarrow> ends (Seq a b) cur = []"
  by simp

lemma bnd_dead: "ends b (n, prev, rest) = [] \<Longrightarrow> ends (Seq (Bnd w) b) (n, prev, rest) = []"
  by simp

lemma opt_seq: "ends (Seq (Opt a) b) cur = ends (Seq a b) cur @ ends b cur"
  by simp

lemma alt_dead: "ends a cur = [] \<Longrightarrow> ends b cur = [] \<Longrightarrow> ends (Alt a b) cur = []"
  by simp

lemma lit_dead: "c \<noteq> of_char ch \<Longrightarrow> ends (Seq (lit ch) b) (n, prev, c # rest) = []"
  by (simp add: lit_def)

lemma space_not_decimal: "\<not> is_decimal E 32"
  by (simp add: is_decimal_def int_of_char_def in_range_def)

lemmas dead = many_dead seq_dead bnd_dead alt_dead lit_dead opt_seq space_not_decimal

lemma ssn_dead:
  "ends (ssn_rx E) (n, prev, 32 # rest) = []"
  "ends (ssn_rx E) (n, prev, c # 32 # rest) = []"
  "ends (ssn_rx E) (n, prev, c # d # 32 # rest) = []"
  unfolding ssn_rx_def rx_seq_def digits_def
  by (simp_all add: dead del: ends.simps)

lemma times3: "times 3 r = Seq r (Seq r (Seq r Eps))"
  by (simp add: times_def rx_seq_def eval_nat_numeral)

lemma credit_card_dead:
  "ends (credit_card_rx E) (n, prev, 32 # rest) = []"
  "ends (credit_card_rx E) (n, prev, c # 32 # rest) = []"
  "ends (credit_card_rx E) (n, prev, c # d # 32 # rest) = []"
  unfolding credit_card_rx_def times3
  unfolding rx_seq_def digits_def
  by (simp_all add: dead del: ends.simps)

lemma access_key_dead:
  "ends (aws_access_key_rx E) (n, prev, 32 # rest) = []"
  "128 \<le> c \<Longrightarrow> ends (aws_access_key_rx E) (n, prev, c # rest) = []"
  unfolding aws_access_key_rx_def rx_seq_def
  by (simp_all add: dead del: ends.simps)

lemma secret_key_dead:
  "ends (aws_secret_key_rx E) (n, prev, 32 # rest) = []"
  "128 \<le> c \<Longrightarrow> ends (aws_secret_key_rx E) (n, prev, c # rest) = []"
  unfolding aws_secret_key_rx_def rx_seq_def
  by (simp_all add: dead in_range_def one_of_def str_def del: ends.simps)

lemma email_dead:
  "ends (email_rx E) (n, prev, 32 # rest) = []"
  "128 \<le> c \<Longrightarrow> ends (email_rx E) (n, prev, c # rest) = []"
  unfolding email_rx_def rx_seq_def
  by (simp_all add: dead in_range_def one_of_def str_def del: ends.simps)

lemma phone_dead:
  "ends (phone_us_rx E) (n, prev, 32 # rest) = []"
  "128 \<le> c \<Longrightarrow> ends (phone_us_rx E) (n, prev, c # 32 # rest) = []"
  "128 \<le> c \<Longrightarrow> ends (phone_us_rx E) (n, prev, c # d # 32 # rest) = []"
  unfolding phone_us_rx_def rx_seq_def digits_def
  by (simp_all add: dead del: ends.simps)

lemma finditer_past2:
  "ends r (0, None, c # d # rest) = [] \<Longrightarrow> ends r (1, Some c, d # rest) = [] \<Longrightarrow>
   finditer r (c # d # rest) = finditer_from r 2 (Some d) rest 0"
  by (simp add: finditer_def eval_nat_numeral)

lemma finditer_past3:
  "ends r (0, None, c # d # e # rest) = [] \<Longrightarrow> ends r (1, Some c, d # e # rest) = [] \<Longrightarrow>
   ends r (2, Some d, e # rest) = [] \<Longrightarrow>
   finditer r (c # d # e # rest) = finditer_from r 3 (Some e) rest 0"
  by (simp add: finditer_def eval_nat_numeral)

lemma ssn_tail:
  "finditer_from (ssn_rx E) 2 (Some 32) (str ''123-45-6789'') 0 = [(2, 13)]"
  "finditer_from (ssn_rx E) 3 (Some 32) (str ''123-45-6789'') 0 = [(3, 14)]"
  "finditer_from (credit_card_rx E) 2 (Some 32) (str ''123-45-6789'') 0 = []"
  "finditer_from (credit_card_rx E) 3 (Some 32) (str ''123-45-6789'') 0 = []"
  "finditer_from (aws_access_key_rx E) 2 (Some 32) (str ''123-45-6789'') 0 = []"
  "finditer_from (aws_access_key_rx E) 3 (Some 32) (str ''123-45-6789'') 0 = []"
  "finditer_from (aws_secret_key_rx E) 2 (Some 32) (str ''123-45-6789'') 0 = []"
  "finditer_from (aws_secret_key_rx E) 3 (Some 32) (str ''123-45-6789'') 0 = []"
  "finditer_from (email_rx E) 2 (Some 32) (str ''123-45-6789'') 0 = []"
  "finditer_from (email_rx E) 3 (Some 32) (str ''123-45-6789'') 0 = []"
  "finditer_from (phone_us_rx E) 2 (Some 32) (str ''123-45-6789'') 0 = []"
  "finditer_from (phone_us_rx E) 3 (Some 32) (str ''123-45-6789'') 0 = []"
  by code_simp+

lemma accent_line_matches:
  "finditer (ssn_rx E) accent_line = [(2, 13)]"
  "finditer (credit_card_rx E) accent_line = []"
  "finditer (aws_access_key_rx E) accent_line = []"
  "finditer (aws_secret_key_rx E) accent_line = []"
  "finditer (email_rx E) accent_line = []"
  "finditer (phone_us_rx E) accent_line = []"
  unfolding accent_line_def
  by (simp_all only: finditer_past2 ssn_dead credit_card_dead access_key_dead secret_key_dead
        email_dead phone_dead ssn_tail order_refl semiring_norm)

lemma latin1_line_matches:
  "finditer (ssn_rx E) latin1_line = [(3, 14)]"
  "finditer (credit_card_rx E) latin1_line = []"
  "finditer (aws_access_key_rx E) latin1_line = []"
  "finditer (aws_secret_key_rx E) latin1_line = []"
  "finditer (email_rx E) latin1_line = []"
  "finditer (phone_us_rx E) latin1_line = []"
  unfolding latin1_line_def
  by (simp_all only: finditer_past3 ssn_dead credit_card_dead access_key_dead secret_key_dead
        email_dead phone_dead ssn_tail order_refl semiring_norm)

lemma accent_ssn_match:
  "ssn_match E accent_line 1 (2, 13) = [ssn_finding E accent_line 1 (2, 13)]"
  "ssn_match E latin1_line 1 (3, 14) = [ssn_finding E latin1_line 1 (3, 14)]"
  by code_simp+

lemma accent_scan_line:
  "scan_line E accent_line 1 = Inr [ssn_finding E accent_line 1 (2, 13)]"
  "scan_line E latin1_line 1 = Inr [ssn_finding E latin1_line 1 (3, 14)]"
  by (simp_all add: scan_line_def detect_ssn_def detect_credit_card_def detect_aws_keys_def
        detect_email_def detect_phone_def accent_line_matches latin1_line_matches
        accent_ssn_match)

lemma accent_decode:
  "decode_utf8 accent_ssn_bytes = Some (accent_line @ [10])"
  "split_on 10 (decode_chunk accent_ssn_bytes) = [accent_line, []]"
  "split_on 10 (decode_chunk (take (Suc 0) accent_ssn_bytes)) = [[195]]"
  "split_on 10 (195 # decode_chunk (drop (Suc 0) accent_ssn_bytes)) = [latin1_line, []]"
  by code_simp+

lemma accent_stream_one:
  "stream_chunks E [Inr accent_ssn_bytes] 0 [] [] log =
     (None, 1, [], [ssn_finding E accent_line 1 (2, 13)], log @ [ReadChunk, ReadChunk])"
  by (simp add: accent_decode accent_scan_line)

lemma accent_stream_two:
  "stream_chunks E [Inr (take (Suc 0) accent_ssn_bytes), Inr (drop (Suc 0) accent_ssn_bytes)] 0 [] [] log =
     (None, 1, [], [ssn_finding E latin1_line 1 (3, 14)],
      log @ [ReadChunk, ReadChunk, ReadChunk])"
  by (simp add: accent_decode accent_scan_line del: split_on.simps)

lemma accent_size:
  "head_object (served [accent_ssn_bytes]) = Inr 15"
  "head_object (served [take (Suc 0) accent_ssn_bytes, drop (Suc 0) accent_ssn_bytes]) = Inr 15"
  "get_object (served [accent_ssn_bytes]) = Inr [Inr accent_ssn_bytes]"
  "get_object (served [take (Suc 0) accent_ssn_bytes, drop (Suc 0) accent_ssn_bytes]) =
     Inr [Inr (take (Suc 0) accent_ssn_bytes), Inr (drop (Suc 0) accent_ssn_bytes)]"
  by (simp_all add: served_def accent_ssn_bytes_def)

lemma accent_scan_one:
  "scan_file_streaming E default_config (served [accent_ssn_bytes]) (str ''notes.txt'') =
     ([ssn_finding E accent_line 1 (2, 13)], None,
      [HeadObject, GetObject, ReadChunk, ReadChunk])"
  by (simp add: scan_file_streaming_def get_file_size_def is_text_file_def notes_txt_is_text
        accent_size accent_stream_one default_config_def del: stream_chunks.simps)

lemma accent_scan_two:
  "scan_file_streaming E default_config
     (served [take (Suc 0) accent_ssn_bytes, drop (Suc 0) accent_ssn_bytes]) (str ''notes.txt'') =
     ([ssn_finding E latin1_line 1 (3, 14)], None,
      [HeadObject, GetObject, ReadChunk, ReadChunk, ReadChunk])"
  by (simp add: scan_file_streaming_def get_file_size_def is_text_file_def notes_txt_is_text
        accent_size accent_stream_two default_config_def del: stream_chunks.simps)

lemma accent_hash:
  "strip_separators E (slice accent_line 2 13) = str ''123456789''"
  "strip_separators E (slice latin1_line 3 14) = str ''123456789''"
  by code_simp+

text \<open>
  C2, where the code departs from the claim. The fifteen bytes of \<open>accent_ssn_bytes\<close>
  are valid UTF-8: \<open>U+00E9\<close> in two bytes, a space, \<open>123-45-6789\<close>, a newline. Delivered
  as one chunk they are scanned to one finding, the number at columns 2 to 13 of line 1.
  Delivered as two chunks split after the first byte, inside the character, neither chunk
  is valid UTF-8 on its own; each is decoded as Latin-1, the line holds two characters
  for the one, and the finding is at columns 3 to 14.
\<close>

theorem split_inside_character_shifts_columns:
  "decode_utf8 accent_ssn_bytes = Some (accent_line @ [10]) \<and>
   map (\<lambda>f. (finding_type f, line_number f, column_start f, column_end f, value_hash f))
     (fst (scan_file_streaming E default_config (served [accent_ssn_bytes])
            (str ''notes.txt''))) =
     [(''ssn'', 1, 2, 13, hash_value E (str ''123456789''))] \<and>
   map (\<lambda>f. (finding_type f, line_number f, column_start f, column_end f, value_hash f))
     (fst (scan_file_streaming E default_config
            (served [take 1 accent_ssn_bytes, drop 1 accent_ssn_bytes])
            (str ''notes.txt''))) =
     [(''ssn'', 1, 3, 14, hash_value E (str ''123456789''))]"
  by (simp add: accent_decode(1) accent_scan_one accent_scan_two ssn_finding_def accent_hash)


section \<open>Verification: the persistence layer\<close>

lemma find_update_first:
  "(\<And>x. p x \<Longrightarrow> p (f x)) \<Longrightarrow> find p (update_first p f xs) = map_option f (find p xs)"
  by (induction xs) auto

lemma lookup_after_update:
  "update_object_status None now d oid st msg = Inr d' \<Longrightarrow>
   lookup_object d' oid =
     map_option (\<lambda>obj. obj\<lparr>status := st,
                        scanned_at := (if st \<in> {''completed'', ''failed''} then Some now else None),
                        attempts := attempts obj + 1,
                        error_message := (case msg of Some m \<Rightarrow> if m \<noteq> [] then Some m else error_message obj
                                 | None \<Rightarrow> error_message obj)\<rparr>) (lookup_object d oid)"
  unfolding update_object_status_def lookup_object_def
  by (auto simp: find_update_first)

lemma update_keeps_findings:
  "update_object_status fault now d oid st msg = Inr d' \<Longrightarrow> findings d' = findings d"
  unfolding update_object_status_def by (auto split: option.splits)

lemma finding_key_extend [simp]:
  "finding_key (finding_data.extend r x) = finding_key r"
  by (simp add: finding_key_def finding_data.defs)

lemma insert_keeps_objects:
  "job_objects (insert_on_conflict_do_nothing d ds) = job_objects d"
  by (induction ds arbitrary: d) auto

lemma keys_insert:
  "set (map finding_key (findings (insert_on_conflict_do_nothing d ds))) =
     set (map finding_key (findings d)) \<union> set (map finding_key ds)"
  by (induction ds arbitrary: d) (auto simp: finding_key_def finding_data.defs)

lemma insert_present:
  "set (map finding_key ds) \<subseteq> set (map finding_key (findings d)) \<Longrightarrow>
   findings (insert_on_conflict_do_nothing d ds) = findings d"
  by (induction ds arbitrary: d) auto

lemma insert_distinct:
  "distinct (map finding_key (findings d)) \<Longrightarrow>
   distinct (map finding_key (findings (insert_on_conflict_do_nothing d ds)))"
  by (induction ds arbitrary: d) (auto simp: finding_key_def finding_data.defs)

lemma insert_prefix:
  "prefix (findings d) (findings (insert_on_conflict_do_nothing d ds))"
proof (induction ds arbitrary: d)
  case Nil
  show ?case by simp
next
  case (Cons a ds)
  show ?case
  proof (cases "finding_key a \<in> set (map finding_key (findings d))")
    case True
    then show ?thesis using Cons [of "d\<lparr>next_finding_id := next_finding_id d + 1\<rparr>"] by simp
  next
    case False
    let ?d = "d\<lparr>findings := findings d @ [finding_data.extend a \<lparr>finding_id = next_finding_id d\<rparr>],
                 next_finding_id := next_finding_id d + 1\<rparr>"
    have "prefix (findings d) (findings ?d)" by simp
    also have "prefix (findings ?d) (findings (insert_on_conflict_do_nothing ?d ds))"
      by (rule Cons)
    finally show ?thesis using False by simp
  qed
qed

text \<open>
  C8. Running \<open>bulk_insert_findings\<close> a second time with the same list leaves the stored
  rows as the first run left them, so their number too. The rows that were there stay in
  place, the keys stored are the old ones and those of the list, and a table whose rows
  are unique on (object\_id, finding\_type, line\_number, column\_start, value\_hash)
  stays so: a row whose key is taken is dropped.
\<close>

theorem bulk_insert_findings_idempotent:
  "\<exists>d1 d2. bulk_insert_findings None d rows = Inr d1 \<and>
           bulk_insert_findings None d1 rows = Inr d2 \<and>
           findings d2 = findings d1 \<and>
           length (findings d2) = length (findings d1) \<and>
           prefix (findings d) (findings d1) \<and>
           set (map finding_key (findings d1)) =
             set (map finding_key (findings d)) \<union> set (map finding_key rows) \<and>
           (distinct (map finding_key (findings d)) \<longrightarrow>
              distinct (map finding_key (findings d1)))"
proof (cases "rows = []")
  case True
  then show ?thesis by (simp add: bulk_insert_findings_def)
next
  case False
  let ?d1 = "insert_on_conflict_do_nothing d rows"
  have same: "findings (insert_on_conflict_do_nothing ?d1 rows) = findings ?d1"
    using keys_insert [of d rows] by (intro insert_present) blast
  show ?thesis
    using False same insert_prefix [of d rows] keys_insert [of d rows] insert_distinct [of d rows]
    by (simp add: bulk_insert_findings_def)
qed

theorem bulk_insert_findings_idempotent_witness:
  "\<exists>d1 d2. bulk_insert_findings None sample_db [sample_row, sample_row] = Inr d1 \<and>
           bulk_insert_findings None d1 [sample_row, sample_row] = Inr d2 \<and>
           findings d2 = findings d1 \<and>
           length (findings d1) = 1 \<and>
           distinct (map finding_key (findings d1))"
proof -
  have one: "length (findings (insert_on_conflict_do_nothing sample_db [sample_row, sample_row])) = 1"
    by (simp add: sample_db_def)
  show ?thesis
    using bulk_insert_findings_idempotent [of sample_db "[sample_row, sample_row]"] one
    by (auto simp: bulk_insert_findings_def sample_db_def)
qed



section \<open>Verification: the state machine\<close>

lemma error_message_of_nonempty: "error_message_of e \<noteq> []"
  by (cases e) auto

lemma scan_file_message_nonempty:
  "scan_file E cfg obj key = (fs, Some m, log) \<Longrightarrow> m \<noteq> []"
  unfolding scan_file_def scan_file_streaming_def
  by (auto simp: error_message_of_nonempty
           split: prod.splits sum.splits option.splits bool.splits if_splits)

lemma found_by_key:
  assumes "find (\<lambda>obj. job_id obj = jid \<and> s3_key obj = key) (job_objects d) = Some obj"
    and "distinct (map object_id (job_objects d))"
  shows "lookup_object d (object_id obj) = Some obj"
proof -
  have mem: "obj \<in> set (job_objects d)"
    using assms(1) by (auto simp: find_Some_iff)
  have "\<And>xs. obj \<in> set xs \<Longrightarrow> distinct (map object_id xs) \<Longrightarrow>
          find (\<lambda>x. object_id x = object_id obj) xs = Some obj"
    subgoal for xs by (induction xs) (auto simp: image_iff)
    done
  then show ?thesis using mem assms(2) by (simp add: lookup_object_def)
qed

lemma scanning_step:
  assumes found: "find (\<lambda>obj. job_id obj = jid \<and> s3_key obj = key) (job_objects d) = Some obj"
    and pk: "distinct (map object_id (job_objects d))"
  shows "\<exists>s1. mark_object_scanning None now d (object_id obj) = Inr s1 \<and>
              lookup_object s1 (object_id obj) =
                Some (obj\<lparr>status := ''scanning'', scanned_at := None,
                          attempts := attempts obj + 1\<rparr>) \<and>
              findings s1 = findings d"
proof -
  obtain s1 where s1: "update_object_status None now d (object_id obj) ''scanning'' None = Inr s1"
    by (simp add: update_object_status_def)
  show ?thesis
    using s1 lookup_after_update [OF s1] update_keeps_findings [OF s1] found_by_key [OF found pk]
    by (simp add: mark_object_scanning_def)
qed

lemma write_completed_objects:
  assumes "write_completed W s oid jid fs = Inr s'"
  shows "lookup_object s' oid =
           map_option (\<lambda>obj. obj\<lparr>status := ''completed'', scanned_at := Some (utcnow W),
                                  attempts := attempts obj + 1\<rparr>) (lookup_object s oid)"
proof -
  have "\<exists>s1. job_objects s1 = job_objects s \<and>
          update_object_status (final_fault W) (utcnow W) s1 oid ''completed'' None = Inr s'"
  proof (cases "fs = []")
    case True
    then show ?thesis
      using assms by (auto simp: write_completed_def mark_object_completed_def)
  next
    case False
    then have "update_object_status (final_fault W) (utcnow W)
                 (insert_on_conflict_do_nothing s (findings_data oid jid fs)) oid
                 ''completed'' None = Inr s'"
      using assms
      by (auto simp: write_completed_def mark_object_completed_def bulk_insert_findings_def
               split: if_splits sum.splits option.splits)
    then show ?thesis
      using insert_keeps_objects by blast
  qed
  then obtain s1 where s1: "job_objects s1 = job_objects s"
    and upd: "update_object_status (final_fault W) (utcnow W) s1 oid ''completed'' None = Inr s'"
    by blast
  have nf: "final_fault W = None"
    using upd by (auto simp: update_object_status_def split: option.splits)
  have "lookup_object s1 oid = lookup_object s oid"
    using s1 by (simp add: lookup_object_def)
  then show ?thesis
    using lookup_after_update [OF upd [unfolded nf]]
    by (simp add: map_option.compositionality comp_def)
qed

lemma write_results_objects:
  assumes "write_results W s oid jid fs message = Inr s'"
    and "lookup_object s oid = Some obj"
  shows "\<exists>obj'. lookup_object s' oid = Some obj' \<and> attempts obj' = attempts obj + 1 \<and>
                status obj' \<in> {''completed'', ''failed''}"
proof (cases "\<exists>m. message = Some m \<and> m \<noteq> []")
  case True
  then obtain m where m: "message = Some m" "m \<noteq> []" by blast
  then have upd: "update_object_status (final_fault W) (utcnow W) s oid ''failed'' (Some m) = Inr s'"
    using assms(1) by (simp add: write_results_def mark_object_failed_def)
  then have nf: "final_fault W = None"
    by (auto simp: update_object_status_def split: option.splits)
  show ?thesis
    using lookup_after_update [OF upd [unfolded nf]] assms(2) by simp
next
  case False
  then have "write_completed W s oid jid fs = Inr s'"
    using assms(1) by (auto simp: write_results_def split: option.splits if_splits)
  then show ?thesis
    using write_completed_objects assms(2) by simp
qed

lemma sample_parse:
  "parse_message (body (sample_message k)) = Some (str ''job-1'', str ''bucket'', str k)"
  by (simp add: parse_message_def sample_message_def)

lemma sample_pk: "distinct (map object_id (job_objects sample_db))"
  by (simp add: sample_db_def)

lemma sample_find_blob:
  "find (\<lambda>obj. job_id obj = str ''job-1'' \<and> s3_key obj = str ''blob.bin'') (job_objects sample_db)
   = Some \<lparr>object_id = 8, job_id = str ''job-1'', s3_key = str ''blob.bin'', status = ''pending'',
          error_message = None, attempts = 0, scanned_at = None\<rparr>"
  by (simp add: sample_db_def str_def)

lemma sample_find_notes:
  "find (\<lambda>obj. job_id obj = str ''job-1'' \<and> s3_key obj = str ''notes.txt'') (job_objects sample_db)
   = Some \<lparr>object_id = 7, job_id = str ''job-1'', s3_key = str ''notes.txt'', status = ''pending'',
          error_message = None, attempts = 0, scanned_at = None\<rparr>"
  by (simp add: sample_db_def str_def)

lemma scan_blob:
  "scan_file E default_config (served [[0, 1, 2]]) (str ''blob.bin'') =
     ([], Some ''Non-text file, skipped'', [HeadObject, GetObjectRange])"
  by code_simp

lemma scan_empty:
  "scan_file E default_config (served []) (str ''notes.txt'') =
     ([], None, [HeadObject, GetObject, ReadChunk])"
  by code_simp

lemma process_message_found:
  assumes parse: "parse_message (body msg) = Some (jid, bucket, key)"
    and found: "find (\<lambda>obj. job_id obj = jid \<and> s3_key obj = key) (job_objects d) = Some obj"
    and committed: "lookup_fault W = None" "scanning_fault W = None" "commit1_fault W = None"
    and s1: "mark_object_scanning None (utcnow W) d (object_id obj) = Inr s1"
    and scan: "scan_file E cfg (s3 W bucket key) key = (fs, message, log)"
  shows "process_message E cfg W d queue msg =
          (case write_results W s1 (object_id obj) jid fs message of
             Inl e \<Rightarrow> (s1, queue, Some e)
           | Inr session2 \<Rightarrow>
               (case commit2_fault W of
                  Some e \<Rightarrow> (s1, queue, Some e)
                | None \<Rightarrow>
                    (case delete_message (delete_fault W) queue (receipt_handle msg) of
                       Inl e \<Rightarrow> (session2, queue, Some e)
                     | Inr queue' \<Rightarrow> (session2, queue', None))))"
  using parse found committed s1 scan
  by (simp add: process_message_def get_object_by_job_and_key_def)

lemma run_final_fault:
  "process_message E default_config ((calm_world (served []))\<lparr>final_fault := Some db_down\<rparr>)
     sample_db [''rh-1''] (sample_message ''notes.txt'') =
   (sample_db\<lparr>job_objects :=
       [\<lparr>object_id = 7, job_id = str ''job-1'', s3_key = str ''notes.txt'', status = ''scanning'',
          error_message = None, attempts = 1, scanned_at = None\<rparr>,
        \<lparr>object_id = 8, job_id = str ''job-1'', s3_key = str ''blob.bin'', status = ''pending'',
          error_message = None, attempts = 0, scanned_at = None\<rparr>]\<rparr>, [''rh-1''], Some db_down)"
  by code_simp

lemma run_delete_fault:
  "process_message E default_config ((calm_world (served []))\<lparr>delete_fault := Some net_down\<rparr>)
     sample_db [''rh-1''] (sample_message ''notes.txt'') =
   (sample_db\<lparr>job_objects :=
       [\<lparr>object_id = 7, job_id = str ''job-1'', s3_key = str ''notes.txt'', status = ''completed'',
          error_message = None, attempts = 2, scanned_at = Some 1000\<rparr>,
        \<lparr>object_id = 8, job_id = str ''job-1'', s3_key = str ''blob.bin'', status = ''pending'',
          error_message = None, attempts = 0, scanned_at = None\<rparr>]\<rparr>, [''rh-1''], Some net_down)"
  by code_simp

lemma run_calm:
  "process_message E default_config (calm_world (served [])) sample_db [''rh-1'']
     (sample_message ''notes.txt'') =
   (sample_db\<lparr>job_objects :=
       [\<lparr>object_id = 7, job_id = str ''job-1'', s3_key = str ''notes.txt'', status = ''completed'',
          error_message = None, attempts = 2, scanned_at = Some 1000\<rparr>,
        \<lparr>object_id = 8, job_id = str ''job-1'', s3_key = str ''blob.bin'', status = ''pending'',
          error_message = None, attempts = 0, scanned_at = None\<rparr>]\<rparr>, [], None)"
  by code_simp

text \<open>
  C6. When no database call and no queue call fails and the scan of a unit ends with an
  error message (the oversize, unreadable and non-text outcomes all do),
  \<open>process_message\<close> leaves the unit with status \<open>failed\<close>, the message as its
  \<open>error_message\<close>, \<open>scanned_at\<close> set and \<open>attempts\<close> two higher (one for \<open>scanning\<close>, one
  for \<open>failed\<close>); the findings table is as before and the queue message is deleted.
\<close>

theorem failed_scan_is_recorded_and_acknowledged:
  assumes parse: "parse_message (body msg) = Some (jid, bucket, key)"
    and found: "find (\<lambda>obj. job_id obj = jid \<and> s3_key obj = key) (job_objects d) = Some obj"
    and pk: "distinct (map object_id (job_objects d))"
    and nofault: "lookup_fault W = None" "scanning_fault W = None" "commit1_fault W = None"
      "final_fault W = None" "commit2_fault W = None" "delete_fault W = None"
    and scan: "scan_file E cfg (s3 W bucket key) key = (fs, Some reason, log)"
  shows "\<exists>d'. process_message E cfg W d queue msg =
                 (d', removeAll (receipt_handle msg) queue, None) \<and>
              lookup_object d' (object_id obj) =
                Some (obj\<lparr>status := ''failed'', scanned_at := Some (utcnow W),
                          attempts := attempts obj + 2, error_message := Some reason\<rparr>) \<and>
              findings d' = findings d"
proof -
  obtain s1 where s1: "mark_object_scanning None (utcnow W) d (object_id obj) = Inr s1"
    and l1: "lookup_object s1 (object_id obj) =
               Some (obj\<lparr>status := ''scanning'', scanned_at := None, attempts := attempts obj + 1\<rparr>)"
    and f1: "findings s1 = findings d"
    using scanning_step [OF found pk] by blast
  have ne: "reason \<noteq> []"
    using scan by (rule scan_file_message_nonempty)
  obtain s2 where
    s2: "update_object_status None (utcnow W) s1 (object_id obj) ''failed'' (Some reason) = Inr s2"
    by (simp add: update_object_status_def)
  have w: "write_results W s1 (object_id obj) jid fs (Some reason) = Inr s2"
    using s2 ne nofault by (simp add: write_results_def mark_object_failed_def)
  have l2: "lookup_object s2 (object_id obj) =
              Some (obj\<lparr>status := ''failed'', scanned_at := Some (utcnow W),
                        attempts := attempts obj + 2, error_message := Some reason\<rparr>)"
    using lookup_after_update [OF s2] l1 ne by simp
  have f2: "findings s2 = findings d"
    using update_keeps_findings [OF s2] f1 by simp
  have "process_message E cfg W d queue msg = (s2, removeAll (receipt_handle msg) queue, None)"
    using nofault w
    unfolding process_message_found [OF parse found nofault(1-3) s1 scan]
    by (simp add: delete_message_def)
  then show ?thesis using l2 f2 by blast
qed

theorem failed_scan_is_recorded_and_acknowledged_witness:
  "\<forall>E. \<exists>d'. process_message E default_config (calm_world (served [[0, 1, 2]])) sample_db
                 [''rh-1''] (sample_message ''blob.bin'') = (d', [], None) \<and>
              lookup_object d' 8 =
                Some \<lparr>object_id = 8, job_id = str ''job-1'', s3_key = str ''blob.bin'',
                      status = ''failed'', error_message = Some ''Non-text file, skipped'',
                      attempts = 2, scanned_at = Some 1000\<rparr> \<and>
              findings d' = []"
proof
  fix E
  let ?W = "calm_world (served [[0, 1, 2]])"
  have calm: "lookup_fault ?W = None" "scanning_fault ?W = None" "commit1_fault ?W = None"
    "final_fault ?W = None" "commit2_fault ?W = None" "delete_fault ?W = None"
    by (simp_all add: calm_world_def)
  have scan: "scan_file E default_config (s3 ?W (str ''bucket'') (str ''blob.bin''))
                (str ''blob.bin'') =
              ([], Some ''Non-text file, skipped'', [HeadObject, GetObjectRange])"
    using scan_blob by (simp add: calm_world_def)
  show "\<exists>d'. process_message E default_config ?W sample_db [''rh-1'']
                 (sample_message ''blob.bin'') = (d', [], None) \<and>
              lookup_object d' 8 =
                Some \<lparr>object_id = 8, job_id = str ''job-1'', s3_key = str ''blob.bin'',
                      status = ''failed'', error_message = Some ''Non-text file, skipped'',
                      attempts = 2, scanned_at = Some 1000\<rparr> \<and>
              findings d' = []"
    using failed_scan_is_recorded_and_acknowledged
            [OF sample_parse sample_find_blob sample_pk calm scan, of "[''rh-1'']"]
    by (simp add: calm_world_def sample_message_def sample_db_def)
qed

text \<open>
  C7, as the code has it. Once the first transaction has committed the status \<open>scanning\<close>,
  an exception that \<open>process_message\<close> logs leaves the queue as it was: the message is not
  deleted. The unit is still \<open>scanning\<close> (one attempt counted) unless the exception is the
  one that the queue's \<open>delete_message\<close> raised: that call comes after the second commit.
\<close>

theorem exception_leaves_message_and_scanning:
  assumes parse: "parse_message (body msg) = Some (jid, bucket, key)"
    and found: "find (\<lambda>obj. job_id obj = jid \<and> s3_key obj = key) (job_objects d) = Some obj"
    and pk: "distinct (map object_id (job_objects d))"
    and committed: "lookup_fault W = None" "scanning_fault W = None" "commit1_fault W = None"
    and raised: "process_message E cfg W d queue msg = (d', queue', Some e)"
  shows "queue' = queue \<and>
         (delete_fault W \<noteq> Some e \<longrightarrow>
            lookup_object d' (object_id obj) =
              Some (obj\<lparr>status := ''scanning'', scanned_at := None,
                        attempts := attempts obj + 1\<rparr>))"
proof -
  obtain s1 where s1: "mark_object_scanning None (utcnow W) d (object_id obj) = Inr s1"
    and l1: "lookup_object s1 (object_id obj) =
               Some (obj\<lparr>status := ''scanning'', scanned_at := None, attempts := attempts obj + 1\<rparr>)"
    using scanning_step [OF found pk] by blast
  obtain fs message log where scan: "scan_file E cfg (s3 W bucket key) key = (fs, message, log)"
    by (cases "scan_file E cfg (s3 W bucket key) key") auto
  have del: "delete_message (delete_fault W) queue h = Inl x \<Longrightarrow> delete_fault W = Some x" for h x
    by (auto simp: delete_message_def split: option.splits exn.splits)
  show ?thesis
    using raised l1 del
    unfolding process_message_found [OF parse found committed s1 scan]
    by (auto split: sum.splits option.splits)
qed


theorem exception_leaves_message_and_scanning_witness:
  "\<forall>E. \<exists>d'. process_message E default_config
                 ((calm_world (served []))\<lparr>final_fault := Some db_down\<rparr>)
                 sample_db [''rh-1''] (sample_message ''notes.txt'') =
               (d', [''rh-1''], Some db_down) \<and>
             lookup_object d' 7 =
               Some \<lparr>object_id = 7, job_id = str ''job-1'', s3_key = str ''notes.txt'',
                     status = ''scanning'', error_message = None, attempts = 1,
                     scanned_at = None\<rparr>"
proof
  fix E
  let ?W = "(calm_world (served []))\<lparr>final_fault := Some db_down\<rparr>"
  have calm: "lookup_fault ?W = None" "scanning_fault ?W = None" "commit1_fault ?W = None"
    by (simp_all add: calm_world_def)
  have other: "delete_fault ?W \<noteq> Some db_down"
    by (simp add: calm_world_def)
  show "\<exists>d'. process_message E default_config ?W sample_db [''rh-1'']
                 (sample_message ''notes.txt'') = (d', [''rh-1''], Some db_down) \<and>
             lookup_object d' 7 =
               Some \<lparr>object_id = 7, job_id = str ''job-1'', s3_key = str ''notes.txt'',
                     status = ''scanning'', error_message = None, attempts = 1,
                     scanned_at = None\<rparr>"
    using exception_leaves_message_and_scanning
            [OF sample_parse sample_find_notes sample_pk calm run_final_fault [of E]] other
    by (simp add: run_final_fault)
qed

text \<open>
  C7 as stated fails when the exception comes from the acknowledgement itself:
  \<open>delete_message\<close> catches \<open>ClientError\<close> only, so a connection error leaves it after the
  second transaction has committed. The message stays in the queue and the unit is
  \<open>completed\<close>, not \<open>scanning\<close>.
\<close>

theorem exception_in_acknowledgement_counterexample:
  "\<forall>E. \<exists>d'. process_message E default_config
                 ((calm_world (served []))\<lparr>delete_fault := Some net_down\<rparr>)
                 sample_db [''rh-1''] (sample_message ''notes.txt'') =
               (d', [''rh-1''], Some net_down) \<and>
             map status (job_objects d') = [''completed'', ''pending'']"
  by (simp add: run_delete_fault)

text \<open>
  C10. A status update of a stored unit counts one attempt whatever the new status is, and
  sets \<open>scanned_at\<close> to the time of the update for \<open>completed\<close> and \<open>failed\<close> and to
  \<open>None\<close> for any other status; so do \<open>mark_object_scanning\<close>, \<open>mark_object_completed\<close> and
  \<open>mark_object_failed\<close>. A \<open>process_message\<close> of a stored unit that ends without an
  exception has counted two attempts.
\<close>

theorem every_status_update_increments_attempts:
  assumes row: "lookup_object d oid = Some obj"
  shows "(\<exists>d' obj'. update_object_status None now d oid st message = Inr d' \<and>
            lookup_object d' oid = Some obj' \<and> status obj' = st \<and>
            attempts obj' = attempts obj + 1 \<and>
            scanned_at obj' =
              (if st = ''completed'' \<or> st = ''failed'' then Some now else None)) \<and>
         (\<exists>d' obj'. mark_object_scanning None now d oid = Inr d' \<and>
            lookup_object d' oid = Some obj' \<and> status obj' = ''scanning'' \<and>
            attempts obj' = attempts obj + 1 \<and> scanned_at obj' = None) \<and>
         (\<exists>d' obj'. mark_object_completed None now d oid = Inr d' \<and>
            lookup_object d' oid = Some obj' \<and> status obj' = ''completed'' \<and>
            attempts obj' = attempts obj + 1 \<and> scanned_at obj' = Some now) \<and>
         (\<exists>d' obj'. mark_object_failed None now d oid reason = Inr d' \<and>
            lookup_object d' oid = Some obj' \<and> status obj' = ''failed'' \<and>
            attempts obj' = attempts obj + 1 \<and> scanned_at obj' = Some now) \<and>
         (parse_message (body msg) = Some (jid, bucket, key) \<and>
          find (\<lambda>x. job_id x = jid \<and> s3_key x = key) (job_objects d) = Some obj \<and>
          object_id obj = oid \<and>
          lookup_fault W = None \<and>
          process_message E cfg W d queue msg = (d'', queue', None) \<longrightarrow>
            (\<exists>obj'. lookup_object d'' oid = Some obj' \<and> attempts obj' = attempts obj + 2))"
proof -
  have upd: "\<exists>d' obj'. update_object_status None now d oid s m = Inr d' \<and>
            lookup_object d' oid = Some obj' \<and> status obj' = s \<and>
            attempts obj' = attempts obj + 1 \<and>
            scanned_at obj' = (if s = ''completed'' \<or> s = ''failed'' then Some now else None)"
    for s m now
  proof -
    obtain d' where d': "update_object_status None now d oid s m = Inr d'"
      by (simp add: update_object_status_def)
    show ?thesis
      using d' lookup_after_update [OF d'] row by auto
  qed
  have e2e: "\<exists>obj'. lookup_object d'' oid = Some obj' \<and> attempts obj' = attempts obj + 2"
    if parse: "parse_message (body msg) = Some (jid, bucket, key)"
      and found: "find (\<lambda>x. job_id x = jid \<and> s3_key x = key) (job_objects d) = Some obj"
      and oid: "object_id obj = oid"
      and lf: "lookup_fault W = None"
      and run: "process_message E cfg W d queue msg = (d'', queue', None)"
  proof -
    have sf: "scanning_fault W = None" and cf: "commit1_fault W = None"
      using run parse found lf
      by (auto simp: process_message_def get_object_by_job_and_key_def mark_object_scanning_def
                     update_object_status_def split: option.splits)
    obtain s1 obj1 where s1: "mark_object_scanning None (utcnow W) d oid = Inr s1"
      and l1: "lookup_object s1 oid = Some obj1" and a1: "attempts obj1 = attempts obj + 1"
      using upd [of "utcnow W" "''scanning''" None] by (auto simp: mark_object_scanning_def)
    obtain fs message log where scan: "scan_file E cfg (s3 W bucket key) key = (fs, message, log)"
      by (cases "scan_file E cfg (s3 W bucket key) key") auto
    have "write_results W s1 oid jid fs message = Inr d''"
      using run
      unfolding process_message_found [OF parse found lf sf cf s1 [folded oid] scan] oid
      by (auto split: sum.splits option.splits)
    then show ?thesis
      using write_results_objects [OF _ l1] a1 by fastforce
  qed
  show ?thesis
    using upd [of now st message] upd [of now "''scanning''" None] upd [of now "''completed''" None]
      upd [of now "''failed''" "Some reason"] e2e
    unfolding mark_object_scanning_def mark_object_completed_def mark_object_failed_def
    by simp
qed


theorem every_status_update_increments_attempts_witness:
  "\<forall>E. (\<exists>d' obj'. mark_object_scanning None 1000 sample_db 7 = Inr d' \<and>
            lookup_object d' 7 = Some obj' \<and> status obj' = ''scanning'' \<and>
            attempts obj' = 1 \<and> scanned_at obj' = None) \<and>
       (\<exists>d' obj'. mark_object_completed None 1000 sample_db 7 = Inr d' \<and>
            lookup_object d' 7 = Some obj' \<and> status obj' = ''completed'' \<and>
            attempts obj' = 1 \<and> scanned_at obj' = Some 1000) \<and>
       (\<exists>d'' obj'. process_message E default_config (calm_world (served [])) sample_db [''rh-1'']
                      (sample_message ''notes.txt'') = (d'', [], None) \<and>
                    lookup_object d'' 7 = Some obj' \<and> attempts obj' = 2)"
proof
  fix E
  have row: "lookup_object sample_db 7 =
               Some \<lparr>object_id = 7, job_id = str ''job-1'', s3_key = str ''notes.txt'',
                     status = ''pending'', error_message = None, attempts = 0, scanned_at = None\<rparr>"
    by (simp add: lookup_object_def sample_db_def)
  have calm: "lookup_fault (calm_world (served [])) = None"
    by (simp add: calm_world_def)
  show "(\<exists>d' obj'. mark_object_scanning None 1000 sample_db 7 = Inr d' \<and>
            lookup_object d' 7 = Some obj' \<and> status obj' = ''scanning'' \<and>
            attempts obj' = 1 \<and> scanned_at obj' = None) \<and>
       (\<exists>d' obj'. mark_object_completed None 1000 sample_db 7 = Inr d' \<and>
            lookup_object d' 7 = Some obj' \<and> status obj' = ''completed'' \<and>
            attempts obj' = 1 \<and> scanned_at obj' = Some 1000) \<and>
       (\<exists>d'' obj'. process_message E default_config (calm_world (served [])) sample_db [''rh-1'']
                      (sample_message ''notes.txt'') = (d'', [], None) \<and>
                    lookup_object d'' 7 = Some obj' \<and> attempts obj' = 2)"
    using every_status_update_increments_attempts
            [OF row, of 1000 "''scanning''" None "''x''" "sample_message ''notes.txt''"
               "str ''job-1''" "str ''bucket''" "str ''notes.txt''" "calm_world (served [])"
               E default_config "[''rh-1'']" _ "[]"]
          run_calm [of E] sample_parse [of "''notes.txt''"] sample_find_notes calm
    by simp
qed


end
